theory Spec2Isabelle
  imports Main
begin

chapter \<open>The inference of language, category and framework in \<^verbatim>\<open>scripts/enrich.py\<close>\<close>

section \<open>Python strings\<close>

text \<open>
  Text is a \<^typ>\<open>string\<close>: a list of characters, each one a code point from U+0000 to
  U+00FF. Python's \<^verbatim>\<open>str\<close> methods and the character classes of \<^verbatim>\<open>re\<close> are written
  out for this range; code points above U+00FF are outside the model.
\<close>

definition is_word_char :: "char \<Rightarrow> bool" where
  \<comment> \<open>\<^verbatim>\<open>\w\<close> of a \<^verbatim>\<open>str\<close> pattern: alphanumeric (\<^verbatim>\<open>str.isalnum\<close>) or underscore\<close>
  "is_word_char c = (let n = (of_char c :: nat) in
     (48 \<le> n \<and> n \<le> 57) \<or> (65 \<le> n \<and> n \<le> 90) \<or> n = 95 \<or> (97 \<le> n \<and> n \<le> 122) \<or>
     n = 170 \<or> (178 \<le> n \<and> n \<le> 179) \<or> n = 181 \<or> (185 \<le> n \<and> n \<le> 186) \<or>
     (188 \<le> n \<and> n \<le> 190) \<or> (192 \<le> n \<and> n \<le> 214) \<or> (216 \<le> n \<and> n \<le> 246) \<or> 248 \<le> n)"

definition is_space_char :: "char \<Rightarrow> bool" where
  \<comment> \<open>\<^verbatim>\<open>\s\<close> and \<^verbatim>\<open>str.isspace\<close>\<close>
  "is_space_char c = (let n = (of_char c :: nat) in
     (9 \<le> n \<and> n \<le> 13) \<or> (28 \<le> n \<and> n \<le> 32) \<or> n = 133 \<or> n = 160)"

definition lower_char :: "char \<Rightarrow> char" where
  "lower_char c = (let n = (of_char c :: nat) in
     if (65 \<le> n \<and> n \<le> 90) \<or> (192 \<le> n \<and> n \<le> 214) \<or> (216 \<le> n \<and> n \<le> 222)
     then char_of (n + 32) else c)"

definition lower :: "string \<Rightarrow> string" where
  \<comment> \<open>\<^verbatim>\<open>s.lower()\<close>\<close>
  "lower s = map lower_char s"

fun startswith :: "string \<Rightarrow> string \<Rightarrow> bool" where
  \<comment> \<open>\<^verbatim>\<open>s.startswith(p)\<close>\<close>
  "startswith s [] = True"
| "startswith [] (c # p) = False"
| "startswith (x # s) (c # p) = (if x = c then startswith s p else False)"

definition endswith :: "string \<Rightarrow> string \<Rightarrow> bool" where
  \<comment> \<open>\<^verbatim>\<open>s.endswith(p)\<close>\<close>
  "endswith s p = startswith (rev s) (rev p)"

fun contains :: "string \<Rightarrow> string \<Rightarrow> bool" where
  \<comment> \<open>\<^verbatim>\<open>sub in s\<close>\<close>
  "contains sub [] = (sub = [])"
| "contains sub (x # s) = (if startswith (x # s) sub then True else contains sub s)"

definition rstrip :: "string \<Rightarrow> string \<Rightarrow> string" where
  \<comment> \<open>\<^verbatim>\<open>s.rstrip(chars)\<close>\<close>
  "rstrip chars s = rev (dropWhile (\<lambda>c. c \<in> set chars) (rev s))"

definition strip :: "string \<Rightarrow> string" where
  \<comment> \<open>\<^verbatim>\<open>s.strip()\<close>: white space removed at both ends\<close>
  "strip s = rev (dropWhile is_space_char (rev (dropWhile is_space_char s)))"

fun str_split :: "char \<Rightarrow> string \<Rightarrow> string list" where
  \<comment> \<open>\<^verbatim>\<open>s.split(sep)\<close> for a separator of one character\<close>
  "str_split sep [] = [[]]"
| "str_split sep (x # s) =
     (if x = sep then [] # str_split sep s
      else (case str_split sep s of [] \<Rightarrow> [[x]] | w # ws \<Rightarrow> (x # w) # ws))"

section \<open>Errors and indexing\<close>

datatype error = IndexError

definition py_index :: "'a list \<Rightarrow> int \<Rightarrow> error + 'a" where
  \<comment> \<open>\<^verbatim>\<open>xs[i]\<close>: from the end for a negative index, \<^verbatim>\<open>IndexError\<close> out of range\<close>
  "py_index xs i =
     (if 0 \<le> i \<and> i < int (length xs) then Inr (xs ! nat i)
      else if i < 0 \<and> - int (length xs) \<le> i then Inr (xs ! nat (int (length xs) + i))
      else Inl IndexError)"

definition dict_get :: "'a option \<Rightarrow> 'a \<Rightarrow> 'a" where
  \<comment> \<open>\<^verbatim>\<open>d.get(key, default)\<close>, for a field that is \<^term>\<open>None\<close> when the key is absent\<close>
  "dict_get field d = (case field of None \<Rightarrow> d | Some v \<Rightarrow> v)"

section \<open>Regular expressions\<close>

text \<open>
  The fragment of Python's \<^verbatim>\<open>re\<close> syntax that the pattern tables use. \<^verbatim>\<open>re.search\<close>
  is a backtracking matcher: \<open>rmatch\<close> returns, in the order Python tries them, the positions
  where a match of the expression that starts at the given position can end. A position is
  the character before it (for \<^verbatim>\<open>\b\<close>) and the text after it.
\<close>

datatype regex =
    Lit string            \<comment> \<open>literal characters\<close>
  | Dot                   \<comment> \<open>\<^verbatim>\<open>.\<close>: any character but the newline\<close>
  | WordC                 \<comment> \<open>\<^verbatim>\<open>\w\<close>\<close>
  | SpaceC                \<comment> \<open>\<^verbatim>\<open>\s\<close>\<close>
  | OneOf string          \<comment> \<open>\<^verbatim>\<open>[...]\<close>\<close>
  | WordB                 \<comment> \<open>\<^verbatim>\<open>\b\<close>\<close>
  | Seq regex regex
  | Alt regex regex       \<comment> \<open>\<^verbatim>\<open>r|s\<close>\<close>
  | Opt regex             \<comment> \<open>\<^verbatim>\<open>r?\<close>\<close>
  | Star regex            \<comment> \<open>\<^verbatim>\<open>r*\<close>\<close>
  | NotAhead regex        \<comment> \<open>\<^verbatim>\<open>(?!r)\<close>\<close>
  | Never                 \<comment> \<open>matches nothing\<close>

fun Cat :: "regex list \<Rightarrow> regex" where
  "Cat [] = Lit []"
| "Cat [r] = r"
| "Cat (r # rs) = Seq r (Cat rs)"

fun Alts :: "regex list \<Rightarrow> regex" where
  "Alts [] = Never"
| "Alts [r] = r"
| "Alts (r # rs) = Alt r (Alts rs)"

definition Plus :: "regex \<Rightarrow> regex" where
  \<comment> \<open>\<^verbatim>\<open>r+\<close>\<close>
  "Plus r = Seq r (Star r)"

type_synonym pos = "char option \<times> string"

definition chr_eq :: "bool \<Rightarrow> char \<Rightarrow> char \<Rightarrow> bool" where
  \<comment> \<open>a pattern character against a text character; the flag is \<^verbatim>\<open>re.IGNORECASE\<close>\<close>
  "chr_eq ic c x = (if ic then lower_char c = lower_char x else c = x)"

fun match_lit :: "bool \<Rightarrow> string \<Rightarrow> pos \<Rightarrow> pos list" where
  "match_lit ic [] s = [s]"
| "match_lit ic (c # cs) (p, []) = []"
| "match_lit ic (c # cs) (p, x # xs) =
     (if chr_eq ic c x then match_lit ic cs (Some x, xs) else [])"

definition at_boundary :: "pos \<Rightarrow> bool" where
  "at_boundary s =
     ((case fst s of None \<Rightarrow> False | Some c \<Rightarrow> is_word_char c) \<noteq>
      (case snd s of [] \<Rightarrow> False | x # xs \<Rightarrow> is_word_char x))"

fun match_char :: "(char \<Rightarrow> bool) \<Rightarrow> pos \<Rightarrow> pos list" where
  "match_char ok (p, []) = []"
| "match_char ok (p, x # xs) = (if ok x then [(Some x, xs)] else [])"

fun star_steps :: "nat \<Rightarrow> (pos \<Rightarrow> pos list) \<Rightarrow> pos \<Rightarrow> pos list" where
  \<comment> \<open>greedy repetition; an iteration that consumes nothing is not repeated\<close>
  "star_steps 0 f s = [s]"
| "star_steps (Suc n) f s =
     concat (map (star_steps n f) (filter (\<lambda>t. length (snd t) < length (snd s)) (f s))) @ [s]"

fun rmatch :: "bool \<Rightarrow> regex \<Rightarrow> pos \<Rightarrow> pos list" where
  "rmatch ic (Lit cs) s = match_lit ic cs s"
| "rmatch ic Dot s = match_char (\<lambda>x. x \<noteq> CHR 0x0A) s"
| "rmatch ic WordC s = match_char is_word_char s"
| "rmatch ic SpaceC s = match_char is_space_char s"
| "rmatch ic (OneOf cs) s = match_char (\<lambda>x. list_ex (\<lambda>c. chr_eq ic c x) cs) s"
| "rmatch ic WordB s = (if at_boundary s then [s] else [])"
| "rmatch ic (Seq r1 r2) s = concat (map (\<lambda>t. rmatch ic r2 t) (rmatch ic r1 s))"
| "rmatch ic (Alt r1 r2) s = rmatch ic r1 s @ rmatch ic r2 s"
| "rmatch ic (Opt r) s = rmatch ic r s @ [s]"
| "rmatch ic (Star r) s = star_steps (length (snd s)) (\<lambda>t. rmatch ic r t) s"
| "rmatch ic (NotAhead r) s = (if rmatch ic r s = [] then [s] else [])"
| "rmatch ic Never s = []"

fun search_from :: "bool \<Rightarrow> regex \<Rightarrow> char option \<Rightarrow> string \<Rightarrow> bool" where
  "search_from ic r p [] = (rmatch ic r (p, []) \<noteq> [])"
| "search_from ic r p (x # xs) =
     (if rmatch ic r (p, x # xs) \<noteq> [] then True else search_from ic r (Some x) xs)"

definition re_search :: "regex \<Rightarrow> string \<Rightarrow> bool" where
  \<comment> \<open>\<^verbatim>\<open>re.search(pattern, text)\<close> finds a match\<close>
  "re_search r text = search_from False r None text"

definition re_search_i :: "regex \<Rightarrow> string \<Rightarrow> bool" where
  \<comment> \<open>\<^verbatim>\<open>re.search(pattern, text, re.IGNORECASE)\<close> finds a match\<close>
  "re_search_i r text = search_from True r None text"

fun group_from :: "regex \<Rightarrow> regex \<Rightarrow> regex \<Rightarrow> char option \<Rightarrow> string \<Rightarrow> string option" where
  \<comment> \<open>the first match of \<^verbatim>\<open>pre(grp)post\<close> from the left, and the text of its group\<close>
  "group_from pre grp post p text =
     (case concat (map (\<lambda>s. concat (map (\<lambda>t. if rmatch False post t = [] then []
                                              else [take (length (snd s) - length (snd t)) (snd s)])
                                       (rmatch False grp s)))
                       (rmatch False pre (p, text))) of
        g # gs \<Rightarrow> Some g
      | [] \<Rightarrow> (case text of [] \<Rightarrow> None | x # xs \<Rightarrow> group_from pre grp post (Some x) xs))"

definition re_search_group :: "regex \<Rightarrow> regex \<Rightarrow> regex \<Rightarrow> string \<Rightarrow> string option" where
  \<comment> \<open>\<^verbatim>\<open>m = re.search(pre (grp) post, text)\<close>: \<^term>\<open>None\<close> for no match, else \<^verbatim>\<open>m.group(1)\<close>\<close>
  "re_search_group pre grp post text = group_from pre grp post None text"

section \<open>Counters\<close>

text \<open>
  A \<^verbatim>\<open>collections.Counter\<close> is a dictionary: its items in the order the keys were first
  stored. \<^verbatim>\<open>c[k] += w\<close> reads 0 for a missing key.
\<close>

type_synonym counter = "(string \<times> int) list"

fun counter_add :: "string \<Rightarrow> int \<Rightarrow> counter \<Rightarrow> counter" where
  "counter_add k w [] = [(k, w)]"
| "counter_add k w ((k', v) # c) =
     (if k' = k then (k', v + w) # c else (k', v) # counter_add k w c)"

definition most_common :: "nat \<Rightarrow> counter \<Rightarrow> counter" where
  \<comment> \<open>\<^verbatim>\<open>c.most_common(n)\<close>: the \<open>n\<close> first items of a stable sort by falling count\<close>
  "most_common n c = take n (sort_key (\<lambda>item. - snd item) c)"

definition add_each :: "('a \<Rightarrow> (string \<times> int) option) \<Rightarrow> 'a list \<Rightarrow> counter \<Rightarrow> counter" where
  \<comment> \<open>a loop over \<open>xs\<close> whose body adds a weight to one label, or does nothing\<close>
  "add_each f xs c =
     foldl (\<lambda>c x. case f x of None \<Rightarrow> c | Some (k, w) \<Rightarrow> counter_add k w c) c xs"

section \<open>Records\<close>

record provider =
  provider_name :: "string option"
  provider_url :: "string option"

record skill =
  skill_tags :: "string list option"

text \<open>
  An agent descriptor is a JSON object. A field is \<^term>\<open>None\<close> when its key is absent;
  a key that is present holds a value of the type the functions read it at: a string, a list
  of strings, a list of skills, a provider object.
\<close>

record agent =
  slug :: "string option"
  name :: "string option"
  description :: "string option"
  repository :: "string option"
  tags :: "string list option"
  sdks :: "string list option"
  skills :: "skill list option"
  provider :: "provider option"
  language :: "string option"
  category :: "string option"
  framework :: "string option"

section \<open>Language inference\<close>

text \<open>Framework to language mapping (strong signal).\<close>

definition FRAMEWORK_TO_LANGUAGE :: "(string \<times> string) list" where
  "FRAMEWORK_TO_LANGUAGE =
  [(''google-adk'', ''python''), (''langgraph'', ''python''), (''langchain'', ''python''),
   (''crewai'', ''python''), (''autogen'', ''python''), (''llamaindex'', ''python''),
   (''fastapi'', ''python''), (''semantic-kernel'', ''csharp''), (''spring-boot'', ''java''),
   (''nestjs'', ''typescript''), (''genkit'', ''typescript''), (''openai-agents'', ''python''),
   (''pydantic-ai'', ''python''), (''strands-agents'', ''python'')]"

text \<open>Tags that directly indicate language (exact match).\<close>

definition TAG_TO_LANGUAGE :: "(string \<times> string) list" where
  "TAG_TO_LANGUAGE =
  [(''python'', ''python''), (''python3'', ''python''), (''python-sdk'', ''python''),
   (''adk-python'', ''python''), (''flask'', ''python''), (''django'', ''python''),
   (''fastapi'', ''python''), (''typescript'', ''typescript''), (''ts'', ''typescript''),
   (''javascript'', ''typescript''), (''js'', ''typescript''), (''nodejs'', ''typescript''),
   (''node'', ''typescript''), (''nextjs'', ''typescript''), (''nestjs'', ''typescript''),
   (''deno'', ''typescript''), (''java'', ''java''), (''java-sdk'', ''java''),
   (''spring'', ''java''), (''spring-boot'', ''java''), (''springboot'', ''java''),
   (''springboot3'', ''java''), (''springframework'', ''java''), (''spring-ai'', ''java''),
   (''a2a4j'', ''java''), (''wildfly'', ''java''), (''go'', ''go''), (''golang'', ''go''),
   (''go-sdk'', ''go''), (''rust'', ''rust''), (''rust-sdk'', ''rust''),
   (''csharp'', ''csharp''), (''c-sharp'', ''csharp''), (''dotnet'', ''csharp''),
   (''.net'', ''csharp''), (''aspnet'', ''csharp''), (''kotlin'', ''kotlin''),
   (''kotlin-sdk'', ''kotlin''), (''php'', ''php''), (''php-sdk'', ''php''),
   (''sdk-php'', ''php''), (''ruby'', ''ruby''), (''ruby-gem'', ''ruby''),
   (''rubygem'', ''ruby''), (''swift'', ''swift''), (''elixir'', ''elixir''),
   (''dart'', ''dart''), (''flutter'', ''dart''), (''zig'', ''zig''), (''adk-zig'', ''zig''),
   (''lua'', ''lua''), (''pydantic-ai'', ''python''), (''pydantic'', ''python''),
   (''modal'', ''python''), (''uvicorn'', ''python''), (''pip'', ''python''),
   (''poetry'', ''python''), (''uv'', ''python''), (''react'', ''typescript''),
   (''reactjs'', ''typescript''), (''vue'', ''typescript''), (''vite'', ''typescript''),
   (''bun'', ''typescript''), (''npm'', ''typescript''), (''vercel'', ''typescript''),
   (''vercel-ai-sdk'', ''typescript''), (''ai-sdk'', ''typescript''), (''rust-lang'', ''rust''),
   (''go-lang'', ''go''), (''asp-net-core'', ''csharp''), (''asp.net'', ''csharp''),
   (''blazor'', ''csharp'')]"

text \<open>Patterns in slug and name that indicate language.\<close>

definition NAME_SLUG_LANGUAGE_PATTERNS :: "(regex \<times> string) list" where
  "NAME_SLUG_LANGUAGE_PATTERNS =
  [(Cat [WordB, Lit ''python'', WordB], ''python''),
   (Cat [WordB, Alts [Lit ''typescript'', Lit ''ts''], WordB], ''typescript''),
   (Cat [WordB, Lit ''java'', WordB], ''java''),
   (Cat [WordB, Lit ''golang'', WordB], ''go''),
   (Cat [WordB, Lit ''rust'', WordB], ''rust''),
   (Cat [WordB, Lit ''csharp'', WordB], ''csharp''),
   (Cat [WordB, Lit ''kotlin'', WordB], ''kotlin''),
   (Cat [WordB, Lit ''php'', WordB], ''php''),
   (Cat [WordB, Lit ''ruby'', WordB], ''ruby''),
   (Cat [WordB, Lit ''swift'', WordB], ''swift''),
   (Cat [WordB, Lit ''elixir'', WordB], ''elixir''),
   (Cat [WordB, Lit ''dart'', WordB], ''dart''),
   (Cat [WordB, Lit ''flutter'', WordB], ''dart''),
   (Cat [WordB, Lit ''zig'', WordB], ''zig'')]"

text \<open>Repository name suffixes.\<close>

definition REPO_SUFFIX_LANGUAGE :: "(string \<times> string) list" where
  "REPO_SUFFIX_LANGUAGE =
  [(''-go'', ''go''), (''-python'', ''python''), (''-py'', ''python''), (''-java'', ''java''),
   (''-ts'', ''typescript''), (''-typescript'', ''typescript''), (''-js'', ''typescript''),
   (''-rust'', ''rust''), (''-rs'', ''rust''), (''-csharp'', ''csharp''),
   (''-dotnet'', ''csharp''), (''-kotlin'', ''kotlin''), (''-php'', ''php''),
   (''-ruby'', ''ruby''), (''-rb'', ''ruby''), (''-swift'', ''swift''),
   (''-elixir'', ''elixir''), (''-dart'', ''dart''), (''-zig'', ''zig''), (''-lua'', ''lua'')]"

text \<open>Description keywords for language.\<close>

definition DESC_LANGUAGE_PATTERNS :: "(regex \<times> string) list" where
  "DESC_LANGUAGE_PATTERNS =
  [(Cat [WordB, Lit ''Python'', WordB], ''python''),
   (Cat [WordB, Lit ''TypeScript'', WordB], ''typescript''),
   (Cat [WordB, Lit ''JavaScript'', WordB], ''typescript''),
   (Cat [WordB, Lit ''Node.js'', WordB], ''typescript''),
   (Cat [WordB, Lit ''Java'', WordB, NotAhead (Cat [Star (SpaceC), Lit ''Script''])], ''java''),
   (Cat [WordB, Lit ''Go'', Opt (Lit ''lang''), Plus (SpaceC), Alts [Lit ''implementation'',
      Lit ''sdk'', Lit ''library'', Lit ''client'', Lit ''server'', Lit ''agent''], WordB],
      ''go''),
   (Cat [WordB, Lit ''written in Go'', WordB], ''go''),
   (Cat [WordB, Lit ''Go'', Plus (SpaceC), Lit ''implementation'', WordB], ''go''),
   (Cat [WordB, Lit ''Golang'', WordB], ''go''),
   (Cat [WordB, Lit ''Rust'', WordB], ''rust''),
   (Cat [WordB, Lit ''C#'', WordB], ''csharp''),
   (Cat [Lit ''.NET'', WordB], ''csharp''),
   (Cat [WordB, Lit ''Kotlin'', WordB], ''kotlin''),
   (Cat [WordB, Lit ''PHP'', WordB], ''php''),
   (Cat [WordB, Lit ''Ruby'', WordB], ''ruby''),
   (Cat [WordB, Lit ''Swift'', WordB], ''swift''),
   (Cat [WordB, Lit ''Elixir'', WordB], ''elixir''),
   (Cat [WordB, Lit ''Dart'', WordB], ''dart''),
   (Cat [WordB, Lit ''Flutter'', WordB], ''dart''),
   (Cat [WordB, Lit ''Zig'', WordB], ''zig'')]"

text \<open>The \<^verbatim>\<open>sdks\<close> field as weak signal.\<close>

definition SDK_TO_LANGUAGE :: "(string \<times> string) list" where
  "SDK_TO_LANGUAGE =
  [(''python'', ''python''), (''typescript'', ''typescript''), (''java'', ''java''),
   (''go'', ''go''), (''rust'', ''rust''), (''csharp'', ''csharp''), (''kotlin'', ''kotlin'')]"

definition language_framework_rule :: "agent \<Rightarrow> counter \<Rightarrow> counter" where
  \<comment> \<open>1. Framework mapping (weight 3)\<close>
  "language_framework_rule agent candidates =
     (let fw = dict_get (framework agent) [] in
      case map_of FRAMEWORK_TO_LANGUAGE fw of
        None \<Rightarrow> candidates
      | Some lang \<Rightarrow> counter_add lang 3 candidates)"

definition language_tag_rule :: "agent \<Rightarrow> counter \<Rightarrow> counter" where
  \<comment> \<open>2. Tags (weight 3)\<close>
  "language_tag_rule agent candidates =
     add_each (\<lambda>tag. case map_of TAG_TO_LANGUAGE (lower tag) of
                        None \<Rightarrow> None
                      | Some lang \<Rightarrow> Some (lang, 3))
       (dict_get (tags agent) []) candidates"

definition language_repo_rule :: "agent \<Rightarrow> counter \<Rightarrow> error + counter" where
  \<comment> \<open>3. Repository suffix (weight 3): the name is the fifth segment of a GitHub address\<close>
  "language_repo_rule agent candidates =
     (let repo = dict_get (repository agent) [] in
      if repo \<noteq> [] then
        (let repo_name = str_split CHR ''/'' (rstrip ''/'' repo) in
         if contains ''github.com'' repo \<and> 5 \<le> length repo_name then
           (case py_index repo_name 4 of
              Inl e \<Rightarrow> Inl e
            | Inr segment \<Rightarrow>
                (let actual_repo = lower segment in
                 Inr (add_each (\<lambda>(suffix, lang).
                                  if endswith actual_repo suffix then Some (lang, 3) else None)
                        REPO_SUFFIX_LANGUAGE candidates)))
         else Inr candidates)
      else Inr candidates)"

definition language_name_rule :: "agent \<Rightarrow> counter \<Rightarrow> counter" where
  \<comment> \<open>4. Slug and name patterns (weight 2)\<close>
  "language_name_rule agent candidates =
     (let combined = lower (dict_get (slug agent) [] @ '' '' @ dict_get (name agent) []) in
      add_each (\<lambda>(pattern, lang). if re_search pattern combined then Some (lang, 2) else None)
        NAME_SLUG_LANGUAGE_PATTERNS candidates)"

definition language_desc_rule :: "agent \<Rightarrow> counter \<Rightarrow> counter" where
  \<comment> \<open>5. Description patterns (weight 2)\<close>
  "language_desc_rule agent candidates =
     (let desc = dict_get (description agent) [] in
      add_each (\<lambda>(pattern, lang). if re_search pattern desc then Some (lang, 2) else None)
        DESC_LANGUAGE_PATTERNS candidates)"

definition language_sample_rule :: "agent \<Rightarrow> counter \<Rightarrow> counter" where
  \<comment> \<open>6. Official sample description pattern (weight 5)\<close>
  "language_sample_rule agent candidates =
     (let desc = dict_get (description agent) [] in
      if startswith desc ''Official A2A'' then
        (case re_search_group (Lit ''Official A2A '') (Plus WordC) (Lit '' sample'') desc of
           None \<Rightarrow> candidates
         | Some g \<Rightarrow>
             (let sample_lang = lower g in
              if sample_lang \<in> set [''python'', ''java'', ''typescript'', ''go'', ''rust'',
                                   ''csharp'', ''kotlin'']
              then counter_add sample_lang 5 candidates else candidates))
      else candidates)"

definition language_sdk_rule :: "agent \<Rightarrow> counter \<Rightarrow> error + counter" where
  \<comment> \<open>7. The \<^verbatim>\<open>sdks\<close> field (weight 1, only if a single SDK is listed)\<close>
  "language_sdk_rule agent candidates =
     (let sdks = dict_get (sdks agent) [] in
      if length sdks = 1 then
        (case py_index sdks 0 of
           Inl e \<Rightarrow> Inl e
         | Inr sdk \<Rightarrow>
             (case map_of SDK_TO_LANGUAGE sdk of
                None \<Rightarrow> Inr candidates
              | Some lang \<Rightarrow> Inr (counter_add lang 1 candidates)))
      else Inr candidates)"

definition language_candidates :: "agent \<Rightarrow> error + counter" where
  \<comment> \<open>the tally of \<^verbatim>\<open>infer_language\<close>, rules 1 to 7 in order\<close>
  "language_candidates agent =
     (case language_repo_rule agent
             (language_tag_rule agent (language_framework_rule agent [])) of
        Inl e \<Rightarrow> Inl e
      | Inr candidates \<Rightarrow>
          language_sdk_rule agent
            (language_sample_rule agent
              (language_desc_rule agent (language_name_rule agent candidates))))"

definition infer_language :: "agent \<Rightarrow> error + string option" where
  "infer_language agent =
     (case language_candidates agent of
        Inl e \<Rightarrow> Inl e
      | Inr candidates \<Rightarrow>
          if candidates = [] then Inr None
          else
            (case py_index (most_common 1 candidates) 0 of
               Inl e \<Rightarrow> Inl e
             | Inr top1 \<Rightarrow>
                 if snd top1 < 2 then Inr None
                 else
                   (let top2 = most_common 2 candidates in
                    if length top2 = 2 then
                      (case py_index top2 0 of
                         Inl e \<Rightarrow> Inl e
                       | Inr item1 \<Rightarrow>
                           (case py_index top2 1 of
                              Inl e \<Rightarrow> Inl e
                            | Inr item2 \<Rightarrow>
                                if snd item1 = snd item2 then Inr None
                                else Inr (Some (fst top1))))
                    else Inr (Some (fst top1)))))"

section \<open>Category inference\<close>

text \<open>Valid categories from the existing data.\<close>

definition VALID_CATEGORIES :: "string set" where
  "VALID_CATEGORIES = set
  [''orchestration'', ''enterprise'', ''code-generation'', ''search'', ''data-analytics'',
   ''conversational'', ''infrastructure'', ''utility'', ''finance'', ''security'',
   ''media-content'', ''travel'', ''multi-agent'']"

text \<open>Tag-based category mapping: a set of tags, a category, the number of matches needed.\<close>

definition TAG_CATEGORY_RULES :: "(string list \<times> string \<times> nat) list" where
  "TAG_CATEGORY_RULES =
  [([''business'', ''commerce''], ''enterprise'', 1),
   ([''finance'', ''fintech'', ''banking'', ''payment'', ''payments'', ''trading'', ''crypto'',
      ''blockchain'', ''defi'', ''escrow''], ''finance'', 1),
   ([''search'', ''retrieval'', ''rag'', ''web-search'', ''google-search'', ''semantic-search''],
      ''search'', 1),
   ([''security'', ''authentication'', ''auth'', ''agent-security'', ''cybersecurity'',
      ''vulnerability''], ''security'', 1),
   ([''devops'', ''docker'', ''kubernetes'', ''k8s'', ''infrastructure'', ''cloud'', ''aws'',
      ''gcp'', ''azure'', ''deployment'', ''ci-cd''], ''infrastructure'', 1),
   ([''image'', ''video'', ''audio'', ''media'', ''image-generation'', ''text-to-image'',
      ''text-to-speech'', ''tts''], ''media-content'', 1),
   ([''code'', ''code-generation'', ''coding'', ''code-review'', ''code-assistant'',
      ''github-copilot''], ''code-generation'', 1),
   ([''data'', ''data-analysis'', ''analytics'', ''data-analytics'', ''data-science'',
      ''dataset'', ''visualization''], ''data-analytics'', 1),
   ([''chat'', ''chatbot'', ''conversational'', ''conversation'', ''dialog'', ''dialogue''],
      ''conversational'', 1),
   ([''travel'', ''flight'', ''hotel'', ''booking'', ''tourism'', ''trip''], ''travel'', 1),
   ([''multi-agent'', ''multi-agent-systems'', ''agent-orchestration'', ''orchestration'',
      ''agent-collaboration''], ''orchestration'', 1),
   ([''cli'', ''tool'', ''utility'', ''sdk'', ''library'', ''framework'', ''template'',
      ''boilerplate'', ''starter''], ''utility'', 1),
   ([''protocol'', ''a2a-protocol'', ''agent-protocol'', ''agent2agent'', ''agent-to-agent'',
      ''llm-protocol'', ''m2m-protocol'', ''agentic-framework''], ''utility'', 1),
   ([''mqtt'', ''amqp'', ''grpc'', ''json-rpc'', ''websocket''], ''infrastructure'', 1),
   ([''demo'', ''example'', ''hello-world'', ''sample'', ''tutorial'', ''learning'', ''starter'',
      ''scaffold''], ''utility'', 1),
   ([''browser'', ''browser-automation'', ''web-testing'', ''playwright'', ''selenium'',
      ''puppeteer''], ''infrastructure'', 1),
   ([''registry'', ''discovery'', ''agent-registry'', ''agent-discovery'', ''a2a-discovery'',
      ''agent-marketplace''], ''infrastructure'', 1),
   ([''gateway'', ''proxy'', ''middleware'', ''router'', ''routing''], ''infrastructure'', 1),
   ([''agent-platform'', ''aiops'', ''governance'', ''guardrails''], ''infrastructure'', 1),
   ([''mcp-server'', ''mcp-client''], ''infrastructure'', 1),
   ([''ranking-system'', ''ranking-algorithm''], ''infrastructure'', 1),
   ([''feature-pack'', ''wrapper'', ''adapter''], ''utility'', 1),
   ([''legal'', ''legal-ai'', ''legal-tech'', ''contract''], ''enterprise'', 1),
   ([''manufacturing'', ''machinery''], ''enterprise'', 1),
   ([''healthcare'', ''medical''], ''enterprise'', 1),
   ([''education'', ''tutoring'', ''learning''], ''enterprise'', 1),
   ([''real-estate'', ''property''], ''enterprise'', 1)]"

text \<open>
  Description keyword patterns for category. The thirteenth pattern of the source is an
  alternation of four CJK words; no text of the model contains their characters, so it is
  written \<^term>\<open>Never\<close>.
\<close>

definition DESC_CATEGORY_PATTERNS :: "(regex \<times> string) list" where
  "DESC_CATEGORY_PATTERNS =
  [(Cat [WordB, Alts [Lit ''search'', Lit ''retriev'', Lit ''find'', Lit ''lookup'',
      Lit ''query'', Lit ''RAG''], WordB], ''search''),
   (Cat [WordB, Alts [Lit ''security'', Lit ''secur'', Lit ''authent'', Lit ''authoriz'',
      Lit ''encrypt'', Lit ''vulnerab'', Lit ''threat''], WordB], ''security''),
   (Cat [WordB, Alts [Lit ''financ'', Lit ''bank'', Lit ''payment'', Lit ''trading'',
      Lit ''crypto'', Lit ''blockchain'', Lit ''escrow'', Lit ''defi''], WordB], ''finance''),
   (Cat [WordB, Alts [Lit ''travel'', Lit ''flight'', Lit ''hotel'', Lit ''booking'',
      Lit ''trip'', Lit ''itinerary'', Lit ''tourism''], WordB], ''travel''),
   (Cat [WordB, Alts [Lit ''image'', Lit ''video'', Lit ''audio'', Lit ''media'',
      Cat [Lit ''generat'', Star (Dot), Lit ''image''], Lit ''text-to-speech''], WordB],
      ''media-content''),
   (Cat [WordB, Alts [Cat [Lit ''code'', Star (Dot), Lit ''generat''], Cat [Lit ''generat'',
      Star (Dot), Lit ''code''], Lit ''coding'', Lit ''code review'', Lit ''program''], WordB],
      ''code-generation''),
   (Cat [WordB, Alts [Cat [Lit ''data'', Star (Dot), Lit ''analy''], Cat [Lit ''analy'',
      Star (Dot), Lit ''data''], Lit ''visualization'', Lit ''dataset'', Lit ''analytics''],
      WordB], ''data-analytics''),
   (Cat [WordB, Alts [Lit ''chatbot'', Lit ''conversational'', Lit ''dialog'',
      Lit ''conversation''], WordB], ''conversational''),
   (Cat [WordB, Alts [Lit ''deploy'', Lit ''docker'', Lit ''kubernetes'', Lit ''infra'',
      Lit ''DevOps'', Lit ''CI/CD''], WordB], ''infrastructure''),
   (Cat [WordB, Alts [Lit ''orchestrat'', Lit ''multi-agent'', Cat [Lit ''coordinat'', Star (Dot),
      Lit ''agent'']], WordB], ''orchestration''),
   (Cat [WordB, Alts [Lit ''SDK'', Lit ''library'', Lit ''framework'', Lit ''implementation'',
      Lit ''toolkit'', Lit ''boilerplate'', Lit ''template'', Lit ''starter'', Lit ''wrapper''],
      WordB], ''utility''),
   (Cat [WordB, Alts [Cat [OneOf ''Ss'', Lit ''ample'', Opt (Lit ''s'')], Lit ''demo'',
      Lit ''example'', Lit ''tutorial'', Lit ''beginner'', Lit ''learning'', Lit ''101'',
      Lit ''playground'', Lit ''toy project'', Cat [OneOf ''Dd'', Lit ''ocs''],
      Lit ''documentation''], WordB], ''utility''),
   (Never, ''utility''),
   (Cat [WordB, Alts [Lit ''Agent Development Kit'', Lit ''ADK'', Lit ''SDK''], WordB],
      ''utility''),
   (Cat [WordB, Alts [Cat [Lit ''protocol'', Star (Dot), Lit ''implementation''],
      Cat [Lit ''implementation'', Star (Dot), Lit ''protocol''], Cat [Lit ''protocol'',
      Star (Dot), Lit ''specification'']], WordB], ''utility''),
   (Cat [WordB, Alts [Lit ''testing'', Lit ''mocking'', Lit ''mock'', Lit ''test and interact''],
      WordB], ''utility''),
   (Cat [WordB, Alts [Lit ''template'', Lit ''scaffold'', Lit ''boilerplate'', Lit ''starter''],
      WordB], ''utility''),
   (Cat [WordB, Alts [Lit ''song'', Lit ''music'', Cat [Lit ''generat'', Star (Dot),
      Lit ''song''], Cat [Lit ''generat'', Star (Dot), Lit ''music''], Cat [Lit ''audio'',
      Star (Dot), Lit ''generat'']], WordB], ''media-content''),
   (Cat [WordB, Alts [Cat [Lit ''agent'', Star (Dot), Lit ''platform''], Cat [Lit ''platform'',
      Star (Dot), Lit ''agent''], Lit ''governance'', Lit ''aiops''], WordB], ''infrastructure''),
   (Cat [WordB, Alts [Lit ''dashboard'', Lit ''monitoring'', Lit ''observability'',
      Lit ''grafana'', Lit ''prometheus''], WordB], ''data-analytics''),
   (Cat [WordB, Alts [Lit ''gateway'', Lit ''proxy'', Lit ''middleware'', Lit ''router'',
      Lit ''routing''], WordB], ''infrastructure''),
   (Cat [WordB, Alts [Lit ''registry'', Lit ''discover'', Lit ''catalog'', Lit ''directory''],
      WordB], ''infrastructure''),
   (Cat [WordB, Alts [Lit ''legal'', Lit ''lawyer'', Cat [Lit ''law'', Plus (SpaceC),
      Lit ''firm''], Lit ''attorney'', Cat [Lit ''contract'', Star (Dot), Lit ''review'']],
      WordB], ''enterprise'')]"

definition is_lifie_business_agent :: "agent \<Rightarrow> bool" where
  "is_lifie_business_agent agent =
     (let provider = dict_get (provider agent) \<lparr>provider_name = None, provider_url = None\<rparr>;
          provider_name = dict_get (provider_name provider) [];
          tags = dict_get (tags agent) []
      in (contains ''Lifie'' provider_name \<or> contains ''lifie'' (dict_get (provider_url provider) []))
         \<and> (''business'' \<in> set tags \<or> ''commerce'' \<in> set tags))"

definition lower_tags :: "string list option \<Rightarrow> string set" where
  \<comment> \<open>\<^verbatim>\<open>set(t.lower() for t in d.get("tags", []))\<close>\<close>
  "lower_tags field = set (map lower (dict_get field []))"

definition category_tag_rule :: "agent \<Rightarrow> counter \<Rightarrow> counter" where
  \<comment> \<open>1. Tag-based rules (weight 3 for each matching tag)\<close>
  "category_tag_rule agent candidates =
     (let tags = lower_tags (tags agent) in
      add_each (\<lambda>(tag_set, category, min_matches).
                  (let matches = card (tags \<inter> set tag_set) in
                   if min_matches \<le> matches then Some (category, 3 * int matches) else None))
        TAG_CATEGORY_RULES candidates)"

definition category_desc_rule :: "agent \<Rightarrow> counter \<Rightarrow> counter" where
  \<comment> \<open>2. Description patterns (weight 2)\<close>
  "category_desc_rule agent candidates =
     (let desc = dict_get (description agent) [] in
      add_each (\<lambda>(pattern, category).
                  if re_search_i pattern desc then Some (category, 2) else None)
        DESC_CATEGORY_PATTERNS candidates)"

definition category_skill_step :: "counter \<Rightarrow> skill \<Rightarrow> counter" where
  \<comment> \<open>the tag rules against the tags of one skill (weight 2 for each matching rule)\<close>
  "category_skill_step candidates skill =
     (let skill_tags = lower_tags (skill_tags skill) in
      add_each (\<lambda>(tag_set, category, min_matches).
                  (let matches = card (skill_tags \<inter> set tag_set) in
                   if min_matches \<le> matches then Some (category, 2) else None))
        TAG_CATEGORY_RULES candidates)"

definition category_skill_rule :: "agent \<Rightarrow> counter \<Rightarrow> counter" where
  \<comment> \<open>3. Skill tags: the loop over the skills\<close>
  "category_skill_rule agent candidates =
     foldl category_skill_step candidates (dict_get (skills agent) [])"

definition name_slug :: "agent \<Rightarrow> string" where
  \<comment> \<open>\<^verbatim>\<open>combined\<close> of \<^verbatim>\<open>infer_category\<close>: the lower-case name, a space, the lower-case slug\<close>
  "name_slug agent = lower (dict_get (name agent) []) @ '' '' @ lower (dict_get (slug agent) [])"

definition category_name_rule :: "agent \<Rightarrow> counter \<Rightarrow> counter" where
  \<comment> \<open>4. Name and slug patterns (weight 1), the ten tests in the order of the source\<close>
  "category_name_rule agent candidates =
     (let combined = name_slug agent in
      add_each (\<lambda>(pattern, category).
                  if re_search pattern combined then Some (category, 1) else None)
        [(Alts [Lit ''search'', Lit ''retriev'', Lit ''rag''], ''search''),
         (Alts [Lit ''secur'', Lit ''auth''], ''security''),
         (Alts [Lit ''financ'', Lit ''bank'', Lit ''trade'', Lit ''crypto''], ''finance''),
         (Alts [Lit ''travel'', Lit ''flight'', Lit ''hotel'', Lit ''trip''], ''travel''),
         (Alts [Lit ''media'', Lit ''image'', Lit ''video'', Lit ''audio''], ''media-content''),
         (Alts [Lit ''code'', Lit ''coding'', Lit ''dev''], ''code-generation''),
         (Alts [Lit ''data'', Lit ''analy''], ''data-analytics''),
         (Alts [Lit ''chat'', Lit ''convers''], ''conversational''),
         (Alts [Lit ''orchestrat'', Cat [Lit ''multi'', Opt Dot, Lit ''agent'']],
            ''orchestration''),
         (Alts [Lit ''deploy'', Lit ''infra'', Lit ''devops'', Lit ''docker'', Lit ''k8s''],
            ''infrastructure'')]
        candidates)"

definition category_sample_rule :: "agent \<Rightarrow> counter \<Rightarrow> counter" where
  \<comment> \<open>agents tagged \<^verbatim>\<open>official-sample\<close> are typically utility (weight 2)\<close>
  "category_sample_rule agent candidates =
     (if ''official-sample'' \<in> lower_tags (tags agent)
      then counter_add ''utility'' 2 candidates else candidates)"

definition category_utility_rule :: "agent \<Rightarrow> counter \<Rightarrow> counter" where
  \<comment> \<open>name and slug patterns for utility (weight 2)\<close>
  "category_utility_rule agent candidates =
     (if re_search
           (Alts [Lit ''template'', Lit ''sample'', Lit ''demo'', Lit ''starter'', Lit ''scaffold'',
                  Lit ''boilerplate'', Cat [Lit ''hello'', Opt Dot, Lit ''world'']])
           (name_slug agent)
      then counter_add ''utility'' 2 candidates else candidates)"

definition category_candidates :: "agent \<Rightarrow> counter" where
  \<comment> \<open>the tally of \<^verbatim>\<open>infer_category\<close>\<close>
  "category_candidates agent =
     category_utility_rule agent
       (category_sample_rule agent
         (category_name_rule agent
           (category_skill_rule agent
             (category_desc_rule agent (category_tag_rule agent [])))))"

definition infer_category :: "agent \<Rightarrow> error + string option" where
  "infer_category agent =
     (if is_lifie_business_agent agent then Inr (Some ''enterprise'')
      else
        (let candidates = category_candidates agent in
         if candidates = [] then Inr None
         else
           (case py_index (most_common 1 candidates) 0 of
              Inl e \<Rightarrow> Inl e
            | Inr top1 \<Rightarrow> if snd top1 < 2 then Inr None else Inr (Some (fst top1)))))"

section \<open>Framework inference\<close>

text \<open>Patterns to detect frameworks from description, name, slug and repository.\<close>

definition FRAMEWORK_DETECTION :: "(regex \<times> string) list" where
  "FRAMEWORK_DETECTION =
  [(Cat [WordB, Alts [Cat [Lit ''google'', Opt (OneOf ''- ''), Lit ''adk''], Cat [Lit ''agent'',
      Opt (OneOf ''- ''), Lit ''development'', Opt (OneOf ''- ''), Lit ''kit'']], WordB],
      ''google-adk''),
   (Cat [WordB, Lit ''adk'', WordB], ''google-adk''),
   (Cat [WordB, Lit ''langgraph'', WordB], ''langgraph''),
   (Cat [WordB, Lit ''langchain'', WordB], ''langchain''),
   (Cat [WordB, Lit ''crewai'', WordB], ''crewai''),
   (Cat [WordB, Lit ''crew'', Opt (OneOf ''- ''), Lit ''ai'', WordB], ''crewai''),
   (Cat [WordB, Lit ''spring'', Opt (OneOf ''- ''), Lit ''boot'', WordB], ''spring-boot''),
   (Cat [WordB, Lit ''spring'', Opt (OneOf ''- ''), Lit ''ai'', WordB], ''spring-boot''),
   (Cat [WordB, Lit ''springframework'', WordB], ''spring-boot''),
   (Cat [WordB, Lit ''springboot'', WordB], ''spring-boot''),
   (Cat [WordB, Lit ''autogen'', WordB], ''autogen''),
   (Cat [WordB, Lit ''ag2'', WordB], ''autogen''),
   (Cat [WordB, Lit ''semantic'', Opt (OneOf ''- ''), Lit ''kernel'', WordB],
      ''semantic-kernel''),
   (Cat [WordB, Lit ''llama'', Opt (OneOf ''- ''), Lit ''index'', WordB], ''llamaindex''),
   (Cat [WordB, Lit ''llamaindex'', WordB], ''llamaindex''),
   (Cat [WordB, Lit ''fastapi'', WordB], ''fastapi''),
   (Cat [WordB, Lit ''nestjs'', WordB], ''nestjs''),
   (Cat [WordB, Lit ''genkit'', WordB], ''genkit''),
   (Cat [WordB, Lit ''openai'', Opt (OneOf ''- ''), Lit ''agent'', Opt (Lit ''s''), WordB],
      ''openai-agents''),
   (Cat [WordB, Lit ''openai'', Opt (OneOf ''- ''), Lit ''agent'', Opt (OneOf ''- ''),
      Lit ''sdk'', WordB], ''openai-agents''),
   (Cat [WordB, Lit ''pydantic'', Opt (OneOf ''- ''), Lit ''ai'', WordB], ''pydantic-ai''),
   (Cat [WordB, Lit ''strands'', Opt (OneOf ''- ''), Lit ''agent'', Opt (Lit ''s''), WordB],
      ''strands-agents'')]"

text \<open>Tags that directly indicate framework.\<close>

definition TAG_TO_FRAMEWORK :: "(string \<times> string) list" where
  "TAG_TO_FRAMEWORK =
  [(''adk'', ''google-adk''), (''adk-google'', ''google-adk''),
   (''adk-python'', ''google-adk''), (''google-adk'', ''google-adk''),
   (''langgraph'', ''langgraph''), (''langchain'', ''langchain''), (''crewai'', ''crewai''),
   (''crew-ai'', ''crewai''), (''spring'', ''spring-boot''), (''spring-boot'', ''spring-boot''),
   (''springboot'', ''spring-boot''), (''springboot3'', ''spring-boot''),
   (''springframework'', ''spring-boot''), (''spring-ai'', ''spring-boot''),
   (''autogen'', ''autogen''), (''ag2'', ''autogen''),
   (''semantic-kernel'', ''semantic-kernel''), (''llamaindex'', ''llamaindex''),
   (''llama-index'', ''llamaindex''), (''fastapi'', ''fastapi''), (''nestjs'', ''nestjs''),
   (''genkit'', ''genkit''), (''openai-agents-sdk'', ''openai-agents''),
   (''openai-agent-sdk'', ''openai-agents''), (''openai-agents'', ''openai-agents''),
   (''pydantic-ai'', ''pydantic-ai''), (''strands-agents'', ''strands-agents''),
   (''strands'', ''strands-agents'')]"

definition all_text :: "agent \<Rightarrow> string" where
  \<comment> \<open>name, slug, description and repository, separated by spaces\<close>
  "all_text agent =
     dict_get (name agent) [] @ '' '' @ dict_get (slug agent) [] @ '' '' @
     dict_get (description agent) [] @ '' '' @ dict_get (repository agent) []"

definition framework_tag_rule :: "agent \<Rightarrow> counter \<Rightarrow> counter" where
  \<comment> \<open>1. Tag-based (weight 3)\<close>
  "framework_tag_rule agent candidates =
     add_each (\<lambda>tag. case map_of TAG_TO_FRAMEWORK (lower tag) of
                        None \<Rightarrow> None
                      | Some fw \<Rightarrow> Some (fw, 3))
       (dict_get (tags agent) []) candidates"

definition framework_text_rule :: "agent \<Rightarrow> counter \<Rightarrow> counter" where
  \<comment> \<open>2. Text-based patterns (weight 2)\<close>
  "framework_text_rule agent candidates =
     add_each (\<lambda>(pattern, fw).
                 if re_search_i pattern (all_text agent) then Some (fw, 2) else None)
       FRAMEWORK_DETECTION candidates"

definition sample_name :: "string \<Rightarrow> error + string" where
  \<comment> \<open>the text after the last colon of the description, stripped and in lower case\<close>
  "sample_name desc =
     (if contains '':'' desc
      then (case py_index (str_split CHR '':'' desc) (- 1) of
              Inl e \<Rightarrow> Inl e
            | Inr part \<Rightarrow> Inr (lower (strip part)))
      else Inr [])"

definition framework_sample_rule :: "agent \<Rightarrow> counter \<Rightarrow> error + counter" where
  \<comment> \<open>3. Official sample description parsing (weight 4)\<close>
  "framework_sample_rule agent candidates =
     (let desc = dict_get (description agent) [] in
      if contains ''Official A2A'' desc then
        (case sample_name desc of
           Inl e \<Rightarrow> Inl e
         | Inr sample \<Rightarrow>
             Inr (add_each (\<lambda>(pattern, fw).
                              if re_search_i pattern sample then Some (fw, 4) else None)
                    FRAMEWORK_DETECTION candidates))
      else Inr candidates)"

definition framework_candidates :: "agent \<Rightarrow> error + counter" where
  \<comment> \<open>the tally of \<^verbatim>\<open>infer_framework\<close>\<close>
  "framework_candidates agent =
     framework_sample_rule agent (framework_text_rule agent (framework_tag_rule agent []))"

definition has_adk_tag :: "agent \<Rightarrow> bool" where
  "has_adk_tag agent =
     list_ex (\<lambda>t. lower t \<in> set [''adk'', ''adk-google'', ''adk-python'', ''google-adk''])
       (dict_get (tags agent) [])"

definition infer_framework :: "agent \<Rightarrow> error + string option" where
  "infer_framework agent =
     (case framework_candidates agent of
        Inl e \<Rightarrow> Inl e
      | Inr candidates \<Rightarrow>
          if candidates = [] then Inr None
          else
            (case py_index (most_common 1 candidates) 0 of
               Inl e \<Rightarrow> Inl e
             | Inr top1 \<Rightarrow>
                 if snd top1 < 2 then Inr None
                 else if fst top1 = ''google-adk'' \<and> snd top1 < 3 \<and> \<not> has_adk_tag agent
                 then Inr None
                 else Inr (Some (fst top1))))"

section \<open>Main enrichment logic\<close>

text \<open>
  The counters of \<^verbatim>\<open>enrich_agents\<close>. Reading and writing the files and printing the
  log are left out: the driver takes the agents in the order of their files and returns them
  as they are stored afterwards.
\<close>

record stats =
  language_changed :: int
  category_changed :: int
  framework_changed :: int
  files_modified :: int
  language_details :: counter
  category_details :: counter
  framework_details :: counter
  language_still_unknown :: int
  category_still_general :: int
  framework_still_custom :: int

definition truthy :: "string option \<Rightarrow> bool" where
  \<comment> \<open>\<^verbatim>\<open>if x:\<close> for a string or \<^verbatim>\<open>None\<close>\<close>
  "truthy x = (case x of None \<Rightarrow> False | Some s \<Rightarrow> s \<noteq> [])"

type_synonym enrich_state = "agent \<times> bool \<times> stats"

definition enrich_language :: "enrich_state \<Rightarrow> error + enrich_state" where
  \<comment> \<open>1. Enrich language\<close>
  "enrich_language st =
     (case st of (agent, modified, stats) \<Rightarrow>
        if language agent = Some ''unknown'' then
          (case infer_language agent of
             Inl e \<Rightarrow> Inl e
           | Inr new_lang \<Rightarrow>
               if truthy new_lang then
                 Inr (agent\<lparr>language := new_lang\<rparr>, True,
                      stats\<lparr>language_changed := language_changed stats + 1,
                            language_details :=
                              counter_add (the new_lang) 1 (language_details stats)\<rparr>)
               else
                 Inr (agent, modified,
                      stats\<lparr>language_still_unknown := language_still_unknown stats + 1\<rparr>))
        else Inr st)"

definition enrich_category :: "enrich_state \<Rightarrow> error + enrich_state" where
  \<comment> \<open>2. Enrich category\<close>
  "enrich_category st =
     (case st of (agent, modified, stats) \<Rightarrow>
        if category agent = Some ''general'' then
          (case infer_category agent of
             Inl e \<Rightarrow> Inl e
           | Inr new_cat \<Rightarrow>
               if truthy new_cat then
                 Inr (agent\<lparr>category := new_cat\<rparr>, True,
                      stats\<lparr>category_changed := category_changed stats + 1,
                            category_details :=
                              counter_add (the new_cat) 1 (category_details stats)\<rparr>)
               else
                 Inr (agent, modified,
                      stats\<lparr>category_still_general := category_still_general stats + 1\<rparr>))
        else Inr st)"

definition enrich_framework :: "enrich_state \<Rightarrow> error + enrich_state" where
  \<comment> \<open>3. Enrich framework\<close>
  "enrich_framework st =
     (case st of (agent, modified, stats) \<Rightarrow>
        if framework agent = Some ''custom'' then
          (case infer_framework agent of
             Inl e \<Rightarrow> Inl e
           | Inr new_fw \<Rightarrow>
               if truthy new_fw then
                 Inr (agent\<lparr>framework := new_fw\<rparr>, True,
                      stats\<lparr>framework_changed := framework_changed stats + 1,
                            framework_details :=
                              counter_add (the new_fw) 1 (framework_details stats)\<rparr>)
               else
                 Inr (agent, modified,
                      stats\<lparr>framework_still_custom := framework_still_custom stats + 1\<rparr>))
        else Inr st)"

definition enrich_agent :: "agent \<Rightarrow> stats \<Rightarrow> error + agent \<times> stats" where
  \<comment> \<open>the body of the loop over the files\<close>
  "enrich_agent agent stats =
     (case enrich_language (agent, False, stats) of
        Inl e \<Rightarrow> Inl e
      | Inr st1 \<Rightarrow>
          (case enrich_category st1 of
             Inl e \<Rightarrow> Inl e
           | Inr st2 \<Rightarrow>
               (case enrich_framework st2 of
                  Inl e \<Rightarrow> Inl e
                | Inr (agent', modified, stats') \<Rightarrow>
                    if modified
                    then Inr (agent', stats'\<lparr>files_modified := files_modified stats' + 1\<rparr>)
                    else Inr (agent, stats'))))"

fun enrich_files :: "agent list \<Rightarrow> stats \<Rightarrow> error + agent list \<times> stats" where
  "enrich_files [] stats = Inr ([], stats)"
| "enrich_files (agent # files) stats =
     (case enrich_agent agent stats of
        Inl e \<Rightarrow> Inl e
      | Inr (agent', stats') \<Rightarrow>
          (case enrich_files files stats' of
             Inl e \<Rightarrow> Inl e
           | Inr (files', stats'') \<Rightarrow> Inr (agent' # files', stats'')))"

definition initial_stats :: stats where
  "initial_stats =
     \<lparr>language_changed = 0, category_changed = 0, framework_changed = 0, files_modified = 0,
      language_details = [], category_details = [], framework_details = [],
      language_still_unknown = 0, category_still_general = 0, framework_still_custom = 0\<rparr>"

definition enrich_agents :: "agent list \<Rightarrow> error + agent list \<times> stats" where
  "enrich_agents files = enrich_files files initial_stats"

section \<open>Reading a tally\<close>

definition count_of :: "counter \<Rightarrow> string \<Rightarrow> int" where
  \<comment> \<open>\<^verbatim>\<open>c[k]\<close>: the count of a label, 0 for a label the counter does not hold\<close>
  "count_of c k = (case map_of c k of None \<Rightarrow> 0 | Some v \<Rightarrow> v)"

definition weight_for :: "('a \<Rightarrow> (string \<times> int) option) \<Rightarrow> string \<Rightarrow> 'a \<Rightarrow> int" where
  \<comment> \<open>what one pass of a loop body adds to the count of a label\<close>
  "weight_for f l x = (case f x of None \<Rightarrow> 0 | Some (k, w) \<Rightarrow> if k = l then w else 0)"

definition inferred_categories :: "string list" where
  \<comment> \<open>the labels that the rules of \<^verbatim>\<open>infer_category\<close> name\<close>
  "inferred_categories =
     [''orchestration'', ''enterprise'', ''code-generation'', ''search'', ''data-analytics'',
      ''conversational'', ''infrastructure'', ''utility'', ''finance'', ''security'',
      ''media-content'', ''travel'']"

definition resolved :: "agent \<Rightarrow> bool" where
  \<comment> \<open>no axis of the record holds its sentinel\<close>
  "resolved agent =
     (language agent \<noteq> Some ''unknown'' \<and> category agent \<noteq> Some ''general'' \<and>
      framework agent \<noteq> Some ''custom'')"

text \<open>What each rule of \<^verbatim>\<open>infer_framework\<close> adds to the count of a label.\<close>

definition tag_score :: "agent \<Rightarrow> string \<Rightarrow> int" where
  "tag_score agent l =
     sum_list (map (weight_for (\<lambda>tag. case map_of TAG_TO_FRAMEWORK (lower tag) of
                                          None \<Rightarrow> None
                                        | Some fw \<Rightarrow> Some (fw, 3)) l)
                 (dict_get (tags agent) []))"

definition pattern_score :: "int \<Rightarrow> string \<Rightarrow> string \<Rightarrow> int" where
  \<comment> \<open>the weight \<open>w\<close> for each pattern of the label that the text matches\<close>
  "pattern_score w text l =
     sum_list (map (weight_for (\<lambda>(pattern, fw).
                                  if re_search_i pattern text then Some (fw, w) else None) l)
                 FRAMEWORK_DETECTION)"

definition sample_score :: "agent \<Rightarrow> string \<Rightarrow> int" where
  "sample_score agent l =
     (let desc = dict_get (description agent) [] in
      if contains ''Official A2A'' desc
      then pattern_score 4
             (if contains '':'' desc then lower (strip (last (str_split CHR '':'' desc))) else [])
             l
      else 0)"

section \<open>Example records\<close>

definition empty_agent :: agent where
  \<comment> \<open>the JSON object with no key\<close>
  "empty_agent =
     \<lparr>slug = None, name = None, description = None, repository = None, tags = None,
      sdks = None, skills = None, provider = None, language = None, category = None,
      framework = None\<rparr>"

definition go_rust_agent :: agent where
  "go_rust_agent = empty_agent\<lparr>tags := Some [''go'', ''rust''], language := Some ''unknown''\<rparr>"

definition langgraph_crewai_agent :: agent where
  "langgraph_crewai_agent =
     empty_agent\<lparr>tags := Some [''langgraph'', ''crewai''], framework := Some ''custom''\<rparr>"

definition short_url_agent :: agent where
  \<comment> \<open>a GitHub address of four segments, neither tags nor description\<close>
  "short_url_agent = empty_agent\<lparr>repository := Some ''https://github.com/a2a-go''\<rparr>"

definition weak_signal_agent :: agent where
  \<comment> \<open>one weight-1 signal for language and one for category\<close>
  "weak_signal_agent = empty_agent\<lparr>name := Some ''Chat'', sdks := Some [''python'']\<rparr>"

definition multi_agent_tagged :: agent where
  "multi_agent_tagged =
     empty_agent\<lparr>tags := Some [''multi-agent''], category := Some ''general''\<rparr>"

definition resolved_agent :: agent where
  \<comment> \<open>no axis holds its sentinel, and the tags point elsewhere\<close>
  "resolved_agent =
     empty_agent\<lparr>tags := Some [''go'', ''finance'', ''langgraph''], language := Some ''python'',
       category := Some ''utility'', framework := Some ''fastapi''\<rparr>"

definition unresolved_agent :: agent where
  \<comment> \<open>every axis holds its sentinel, and there is no signal\<close>
  "unresolved_agent =
     empty_agent\<lparr>language := Some ''unknown'', category := Some ''general'',
       framework := Some ''custom''\<rparr>"

definition lifie_agent :: agent where
  \<comment> \<open>a Lifie business agent whose description points to utility\<close>
  "lifie_agent =
     empty_agent\<lparr>description := Some ''SDK demo'', tags := Some [''business''],
       provider := Some \<lparr>provider_name = Some ''Lifie AI'', provider_url = None\<rparr>\<rparr>"

definition lifie_upper_agent :: agent where
  \<comment> \<open>the same record, the provider name in capitals\<close>
  "lifie_upper_agent =
     lifie_agent\<lparr>provider := Some \<lparr>provider_name = Some ''LIFIE AI'', provider_url = None\<rparr>\<rparr>"

definition midtext_marker_agent :: agent where
  \<comment> \<open>the marker of an official sample, not at the start of the description\<close>
  "midtext_marker_agent = empty_agent\<lparr>description := Some ''An Official A2A sample: adk''\<rparr>"

definition python_fastapi_agent :: agent where
  "python_fastapi_agent =
     empty_agent\<lparr>tags := Some [''python'', ''fastapi''], language := Some ''unknown''\<rparr>"

definition bare_adk_agent :: agent where
  \<comment> \<open>the bare acronym in the description, and no tag\<close>
  "bare_adk_agent =
     empty_agent\<lparr>description := Some ''Built with ADK'', framework := Some ''custom''\<rparr>"

definition crewai_sample_agent :: agent where
  \<comment> \<open>an official sample that names Crewai after the colon, and LangGraph before it\<close>
  "crewai_sample_agent =
     empty_agent\<lparr>description := Some ''Official A2A LangGraph sample: Crewai'',
       tags := Some [''python'', ''CrewAI''], framework := Some ''custom''\<rparr>"

definition spring_tagged_agent :: agent where
  \<comment> \<open>the same kind of description, and four tags of another framework\<close>
  "spring_tagged_agent =
     empty_agent\<lparr>description := Some ''Official A2A Spring Boot sample: Crewai'',
       tags := Some [''spring'', ''spring-boot'', ''spring-ai'', ''springboot''],
       framework := Some ''custom''\<rparr>"

definition crowded_sample_agent :: agent where
  \<comment> \<open>no tags; the text after the colon names Crewai and, three ways, Spring\<close>
  "crowded_sample_agent =
     empty_agent\<lparr>description := Some ''Official A2A: Crewai, Spring Boot, Spring AI, springboot'',
       framework := Some ''custom''\<rparr>"

section \<open>Character tests on the bits of a character\<close>

text \<open>
  The same three functions, as equations that evaluation can use without arithmetic; each
  is checked against its definition on all 256 characters.
\<close>

lemma lower_char_bits [code]:
  "lower_char (Char b0 b1 b2 b3 b4 b5 b6 b7) =
     (if b6 \<and> \<not> b5 \<and>
         (if b7 then \<not> (b4 \<and> b2 \<and> b1 \<and> b0)
          else (b0 \<or> b1 \<or> b2 \<or> b3 \<or> b4) \<and> \<not> (b4 \<and> b3 \<and> (b2 \<or> (b1 \<and> b0))))
      then Char b0 b1 b2 b3 b4 True b6 b7 else Char b0 b1 b2 b3 b4 b5 b6 b7)"
  by (cases b0; cases b1; cases b2; cases b3; cases b4; cases b5; cases b6; cases b7;
      simp add: lower_char_def char_of_def bit_0)

lemma is_word_char_bits [code]:
  "is_word_char (Char b0 b1 b2 b3 b4 b5 b6 b7) =
     (if b7 then
        (if b6 then \<not> (b4 \<and> \<not> b3 \<and> b2 \<and> b1 \<and> b0)
         else b5 \<and>
           (if b4 then
              (if b3 then b0 \<noteq> b1 \<or> (b2 \<and> \<not> b0)
               else (\<not> b2 \<and> b1) \<or> (b2 \<and> \<not> b1 \<and> b0))
            else b3 \<and> \<not> b2 \<and> b1 \<and> \<not> b0))
      else
        (if b6 then
           ((b0 \<or> b1 \<or> b2 \<or> b3 \<or> b4) \<and> \<not> (b4 \<and> b3 \<and> (b2 \<or> (b1 \<and> b0)))) \<or>
           (\<not> b5 \<and> b4 \<and> b3 \<and> b2 \<and> b1 \<and> b0)
         else b5 \<and> b4 \<and> \<not> (b3 \<and> (b2 \<or> b1))))"
  by (cases b0; cases b1; cases b2; cases b3; cases b4; cases b5; cases b6; cases b7;
      simp add: is_word_char_def)

lemma is_space_char_bits [code]:
  "is_space_char (Char b0 b1 b2 b3 b4 b5 b6 b7) =
     (\<not> b6 \<and>
      (if b7 then
         \<not> b4 \<and> \<not> b3 \<and> \<not> b1 \<and> (if b5 then \<not> b2 \<and> \<not> b0 else b2 \<and> b0)
       else if b5 then \<not> (b0 \<or> b1 \<or> b2 \<or> b3 \<or> b4)
       else b3 \<and> (if b4 then b2 else (b0 \<or> b1 \<or> b2) \<and> \<not> (b2 \<and> b1))))"
  by (cases b0; cases b1; cases b2; cases b3; cases b4; cases b5; cases b6; cases b7;
      simp add: is_space_char_def)

section \<open>Counters: keys, counts and the most common items\<close>

lemma map_of_counter_add:
  "map_of (counter_add k w c) = (map_of c)(k \<mapsto> count_of c k + w)"
  by (induction c) (auto simp: count_of_def fun_eq_iff)

lemma count_of_counter_add:
  "count_of (counter_add k w c) l = count_of c l + (if l = k then w else 0)"
  by (simp add: count_of_def map_of_counter_add)

lemma map_fst_counter_add:
  "map fst (counter_add k w c) = map fst c @ (if k \<in> fst ` set c then [] else [k])"
proof (induction c)
  case Nil
  show ?case by simp
next
  case (Cons a c)
  obtain k' v where a: "a = (k', v)" by (cases a)
  show ?case
  proof (cases "k' = k")
    case True
    then show ?thesis by (simp add: a)
  next
    case False
    then show ?thesis using Cons.IH by (simp add: a)
  qed
qed

lemma keys_counter_add: "fst ` set (counter_add k w c) = insert k (fst ` set c)"
  using arg_cong [OF map_fst_counter_add [of k w c], of set] by (auto split: if_splits)

lemma distinct_counter_add:
  "distinct (map fst c) \<Longrightarrow> distinct (map fst (counter_add k w c))"
  by (simp add: map_fst_counter_add)

lemma counter_add_not_empty: "counter_add k w c \<noteq> []"
  by (cases c) (auto split: if_splits)

lemma add_each_Nil: "add_each f [] c = c"
  by (simp add: add_each_def)

lemma add_each_Cons:
  "add_each f (x # xs) c =
     add_each f xs (case f x of None \<Rightarrow> c | Some (k, w) \<Rightarrow> counter_add k w c)"
  by (simp add: add_each_def)

lemma add_each_append: "add_each f (xs @ ys) c = add_each f ys (add_each f xs c)"
  by (simp add: add_each_def)

lemma count_of_add_each:
  "count_of (add_each f xs c) l = count_of c l + sum_list (map (weight_for f l) xs)"
proof (induction xs arbitrary: c)
  case Nil
  show ?case by (simp add: add_each_Nil)
next
  case (Cons x xs)
  show ?case
    by (cases "f x") (auto simp: add_each_Cons Cons.IH weight_for_def count_of_counter_add)
qed

lemma keys_add_each:
  "fst ` set (add_each f xs c) = fst ` set c \<union> {k. \<exists>x \<in> set xs. \<exists>w. f x = Some (k, w)}"
proof (induction xs arbitrary: c)
  case Nil
  show ?case by (simp add: add_each_Nil)
next
  case (Cons x xs)
  show ?case
  proof (cases "f x")
    case None
    then show ?thesis by (auto simp: add_each_Cons Cons.IH)
  next
    case (Some kw)
    obtain k w where kw: "kw = (k, w)" by (cases kw)
    have "fst ` set (add_each f (x # xs) c) =
          insert k (fst ` set c) \<union> {k. \<exists>x \<in> set xs. \<exists>w. f x = Some (k, w)}"
      by (simp add: add_each_Cons Some kw Cons.IH keys_counter_add)
    also have "\<dots> = fst ` set c \<union> {k. \<exists>x \<in> set (x # xs). \<exists>w. f x = Some (k, w)}"
      using Some kw by auto
    finally show ?thesis .
  qed
qed

lemma distinct_add_each:
  "distinct (map fst c) \<Longrightarrow> distinct (map fst (add_each f xs c))"
proof (induction xs arbitrary: c)
  case Nil
  then show ?case by (simp add: add_each_Nil)
next
  case (Cons x xs)
  then show ?case
    by (cases "f x") (auto simp: add_each_Cons intro: distinct_counter_add)
qed

lemma count_of_member:
  "distinct (map fst c) \<Longrightarrow> (k, v) \<in> set c \<Longrightarrow> count_of c k = v"
  by (simp add: count_of_def)

lemma member_count_of:
  "k \<in> fst ` set c \<Longrightarrow> distinct (map fst c) \<Longrightarrow> (k, count_of c k) \<in> set c"
  by (auto simp: count_of_def)

lemma count_of_absent: "k \<notin> fst ` set c \<Longrightarrow> count_of c k = 0"
  by (simp add: count_of_def map_of_eq_None_iff [THEN iffD2])

lemma py_index_single: "py_index [x] 0 = Inr x"
  by (simp add: py_index_def)

lemma py_index_in_range:
  "0 \<le> i \<Longrightarrow> nat i < length xs \<Longrightarrow> py_index xs i = Inr (xs ! nat i)"
  by (simp add: py_index_def)

lemma most_common_one:
  assumes "c \<noteq> []"
  shows "\<exists>x. most_common 1 c = [x] \<and> x \<in> set c \<and> (\<forall>y \<in> set c. snd y \<le> snd x)"
proof -
  let ?f = "\<lambda>item :: string \<times> int. - snd item"
  have "length (sort_key ?f c) = length c" by simp
  with assms obtain x xs where xs: "sort_key ?f c = x # xs"
    by (cases "sort_key ?f c") auto
  have "sorted (map ?f (sort_key ?f c))" by (rule sorted_sort_key)
  with xs have le: "\<forall>y \<in> set xs. ?f x \<le> ?f y" by simp
  have set: "set c = insert x (set xs)"
    using set_sort [of ?f c] xs by simp
  have "most_common 1 c = [x]" by (simp add: most_common_def xs)
  moreover have "x \<in> set c" using set by simp
  moreover have "\<forall>y \<in> set c. snd y \<le> snd x" using set le by auto
  ultimately show ?thesis by blast
qed

lemma most_common_one_strict:
  assumes "(k, v) \<in> set c" and "\<forall>(k', v') \<in> set c. k' \<noteq> k \<longrightarrow> v' < v"
    and "distinct (map fst c)"
  shows "most_common 1 c = [(k, v)]"
proof -
  from assms(1) have "c \<noteq> []" by auto
  then obtain x where x: "most_common 1 c = [x]" "x \<in> set c" "\<forall>y \<in> set c. snd y \<le> snd x"
    using most_common_one by blast
  have "fst x = k"
  proof (rule ccontr)
    assume "fst x \<noteq> k"
    with assms(2) x(2) have "snd x < v" by (cases x) auto
    moreover from x(3) assms(1) have "v \<le> snd x" by auto
    ultimately show False by simp
  qed
  with assms(1,3) x(2) have "x = (k, v)"
    by (cases x) (auto dest: eq_key_imp_eq_value)
  with x(1) show ?thesis by simp
qed

lemma most_common_two_tie:
  assumes "(l1, s) \<in> set c" "(l2, s) \<in> set c" "l1 \<noteq> l2"
    and "\<forall>(l, s') \<in> set c. s' \<le> s"
  shows "\<exists>a b. most_common 2 c = [a, b] \<and> snd a = s \<and> snd b = s"
proof -
  let ?f = "\<lambda>item :: string \<times> int. - snd item"
  have len: "length (sort_key ?f c) = length c" by simp
  have "card {(l1, s), (l2, s)} \<le> card (set c)"
    using assms(1,2) by (intro card_mono) auto
  with assms(3) have "2 \<le> length c"
    using card_length [of c] by simp
  with len obtain a b xs where xs: "sort_key ?f c = a # b # xs"
    by (cases "sort_key ?f c"; cases "tl (sort_key ?f c)") auto
  have sorted: "sorted (map ?f (sort_key ?f c))" by (rule sorted_sort_key)
  have set: "set c = {a, b} \<union> set xs"
    using set_sort [of ?f c] xs by auto
  have "snd a \<le> s" "snd b \<le> s" using assms(4) set by auto
  have ab: "snd b \<le> snd a" using sorted xs by simp
  have rest: "\<forall>y \<in> set xs. snd y \<le> snd b" using sorted xs by simp
  have "s \<le> snd b"
  proof -
    have "(l1, s) \<noteq> a \<or> (l2, s) \<noteq> a" using assms(3) by auto
    then obtain l where "(l, s) \<in> set c" "(l, s) \<noteq> a"
      using assms(1,2) by blast
    with set have "(l, s) = b \<or> (l, s) \<in> set xs" by auto
    with rest show ?thesis by auto
  qed
  with ab \<open>snd a \<le> s\<close> \<open>snd b \<le> s\<close> have "snd a = s" "snd b = s" by simp_all
  moreover have "most_common 2 c = [a, b]"
    by (simp add: most_common_def xs numeral_2_eq_2)
  ultimately show ?thesis by blast
qed

section \<open>No rule and no gate raises\<close>

lemma str_split_not_empty: "str_split sep s \<noteq> []"
  by (induction s) (auto split: list.splits)

lemma py_index_last: "xs \<noteq> [] \<Longrightarrow> py_index xs (- 1) = Inr (last xs)"
  by (cases xs rule: rev_cases) (auto simp: py_index_def nth_append)

lemma language_repo_rule_total: "\<exists>c'. language_repo_rule agent c = Inr c'"
proof -
  have "5 \<le> length xs \<Longrightarrow> py_index xs 4 = Inr (xs ! 4)" for xs :: "string list"
    by (simp add: py_index_def)
  then show ?thesis
    by (auto simp: language_repo_rule_def Let_def)
qed

lemma language_sdk_rule_total: "\<exists>c'. language_sdk_rule agent c = Inr c'"
proof -
  have "length xs = 1 \<Longrightarrow> py_index xs 0 = Inr (xs ! 0)" for xs :: "string list"
    by (simp add: py_index_def)
  then show ?thesis
    by (auto simp: language_sdk_rule_def Let_def split: option.splits)
qed

lemma language_candidates_total: "\<exists>c. language_candidates agent = Inr c"
proof -
  obtain c1 where "language_repo_rule agent
      (language_tag_rule agent (language_framework_rule agent [])) = Inr c1"
    using language_repo_rule_total by blast
  then show ?thesis
    by (simp add: language_candidates_def language_sdk_rule_total)
qed

lemma sample_name_total:
  "sample_name desc =
     Inr (if contains '':'' desc then lower (strip (last (str_split CHR '':'' desc))) else [])"
  by (simp add: sample_name_def py_index_last str_split_not_empty)

lemma framework_sample_rule_total: "\<exists>c'. framework_sample_rule agent c = Inr c'"
  by (simp add: framework_sample_rule_def Let_def sample_name_total)

lemma framework_candidates_total: "\<exists>c. framework_candidates agent = Inr c"
  by (simp add: framework_candidates_def framework_sample_rule_total)

lemma top_index_total: "c \<noteq> [] \<Longrightarrow> \<exists>x. py_index (most_common 1 c) 0 = Inr x"
  using most_common_one [of c] by (auto simp: py_index_single)

lemma top2_index_total:
  assumes "length (most_common 2 c) = 2"
  shows "\<exists>a b. py_index (most_common 2 c) 0 = Inr a \<and> py_index (most_common 2 c) 1 = Inr b"
  using assms by (simp add: py_index_def)

lemma infer_language_total: "\<exists>r. infer_language agent = Inr r"
proof -
  obtain c where c: "language_candidates agent = Inr c"
    using language_candidates_total by blast
  show ?thesis
  proof (cases "c = []")
    case True
    then show ?thesis by (simp add: infer_language_def c)
  next
    case False
    then obtain x where x: "py_index (most_common 1 c) 0 = Inr x"
      using top_index_total by blast
    show ?thesis
    proof (cases "length (most_common 2 c) = 2")
      case True
      then obtain a b where "py_index (most_common 2 c) 0 = Inr a"
          "py_index (most_common 2 c) 1 = Inr b"
        using top2_index_total by blast
      with x False True show ?thesis
        by (simp add: infer_language_def c Let_def)
    next
      case neq: False
      with x False show ?thesis
        by (simp add: infer_language_def c Let_def)
    qed
  qed
qed

lemma infer_category_total: "\<exists>r. infer_category agent = Inr r"
proof (cases "category_candidates agent = []")
  case True
  then show ?thesis by (simp add: infer_category_def)
next
  case False
  then obtain x where "py_index (most_common 1 (category_candidates agent)) 0 = Inr x"
    using top_index_total by blast
  with False show ?thesis
    by (simp add: infer_category_def Let_def)
qed

lemma infer_framework_total: "\<exists>r. infer_framework agent = Inr r"
proof -
  obtain c where c: "framework_candidates agent = Inr c"
    using framework_candidates_total by blast
  show ?thesis
  proof (cases "c = []")
    case True
    then show ?thesis by (simp add: infer_framework_def c)
  next
    case False
    then obtain x where "py_index (most_common 1 c) 0 = Inr x"
      using top_index_total by blast
    with False show ?thesis
      by (simp add: infer_framework_def c)
  qed
qed

section \<open>Signals that add nothing\<close>

lemma add_each_none: "\<forall>x \<in> set xs. f x = None \<Longrightarrow> add_each f xs c = c"
  by (induction xs arbitrary: c) (simp_all add: add_each_Nil add_each_Cons)

lemma no_language_pattern_in_empty:
  "list_all (\<lambda>(pattern, lang). \<not> re_search pattern []) DESC_LANGUAGE_PATTERNS"
  by code_simp

lemma no_category_pattern_in_empty:
  "list_all (\<lambda>(pattern, category). \<not> re_search_i pattern []) DESC_CATEGORY_PATTERNS"
  by code_simp

lemma no_framework_pattern_in_empty:
  "list_all (\<lambda>(pattern, fw). \<not> re_search_i pattern []) FRAMEWORK_DETECTION"
  by code_simp

lemma min_matches_positive:
  "list_all (\<lambda>(tag_set, category, min_matches). 1 \<le> min_matches) TAG_CATEGORY_RULES"
  by code_simp

lemma missing_tags_add_nothing:
  assumes "tags agent = None"
  shows "language_tag_rule agent c = c" and "category_tag_rule agent c = c"
    and "framework_tag_rule agent c = c"
proof -
  show "language_tag_rule agent c = c"
    by (simp add: language_tag_rule_def assms dict_get_def add_each_Nil)
  show "framework_tag_rule agent c = c"
    by (simp add: framework_tag_rule_def assms dict_get_def add_each_Nil)
  have "\<forall>rule \<in> set TAG_CATEGORY_RULES.
          (\<lambda>(tag_set, label, min_matches).
             (let matches = card (lower_tags None \<inter> set tag_set) in
              if min_matches \<le> matches then Some (label, 3 * int matches) else None)) rule = None"
    using min_matches_positive
    by (auto simp: list_all_iff lower_tags_def dict_get_def)
  then show "category_tag_rule agent c = c"
    unfolding category_tag_rule_def assms Let_def
    by (intro add_each_none) (simp add: Let_def)
qed

lemma missing_description_adds_nothing:
  assumes "description agent = None"
  shows "language_desc_rule agent c = c" and "language_sample_rule agent c = c"
    and "category_desc_rule agent c = c" and "framework_sample_rule agent c = Inr c"
proof -
  show "language_desc_rule agent c = c"
    unfolding language_desc_rule_def assms Let_def
    using no_language_pattern_in_empty
    by (intro add_each_none) (auto simp: list_all_iff dict_get_def)
  show "language_sample_rule agent c = c"
    by (simp add: language_sample_rule_def assms dict_get_def)
  show "category_desc_rule agent c = c"
    unfolding category_desc_rule_def assms Let_def
    using no_category_pattern_in_empty
    by (intro add_each_none) (auto simp: list_all_iff dict_get_def)
  show "framework_sample_rule agent c = Inr c"
    by (simp add: framework_sample_rule_def assms dict_get_def)
qed

lemma other_url_adds_nothing:
  assumes "\<not> (contains ''github.com'' (dict_get (repository agent) []) \<and>
              5 \<le> length (str_split CHR ''/'' (rstrip ''/'' (dict_get (repository agent) []))))"
  shows "language_repo_rule agent c = Inr c"
  using assms by (auto simp: language_repo_rule_def Let_def)

section \<open>Scores only grow\<close>

lemma count_of_present: "count_of c k \<noteq> 0 \<Longrightarrow> (k, count_of c k) \<in> set c"
  by (auto simp: count_of_def split: option.splits dest: map_of_SomeD)

lemma weight_le_sum_list:
  fixes g :: "'a \<Rightarrow> int"
  assumes "\<forall>y \<in> set xs. 0 \<le> g y" and "x \<in> set xs"
  shows "g x \<le> sum_list (map g xs)"
  using assms
proof (induction xs)
  case Nil
  then show ?case by simp
next
  case (Cons y ys)
  have "0 \<le> sum_list (map g ys)"
    using Cons.prems(1) by (intro sum_list_nonneg) auto
  with Cons show ?case by auto
qed

lemma count_of_add_each_mono:
  assumes "\<forall>x \<in> set xs. 0 \<le> weight_for f l x"
  shows "count_of c l \<le> count_of (add_each f xs c) l"
proof -
  have "0 \<le> sum_list (map (weight_for f l) xs)"
    using assms by (intro sum_list_nonneg) auto
  then show ?thesis by (simp add: count_of_add_each)
qed

lemma count_of_add_each_ge:
  assumes "\<forall>x \<in> set xs. 0 \<le> weight_for f l x" and "x \<in> set xs"
  shows "count_of c l + weight_for f l x \<le> count_of (add_each f xs c) l"
  using weight_le_sum_list [OF assms] by (simp add: count_of_add_each)

lemma count_of_counter_add_mono: "0 \<le> w \<Longrightarrow> count_of c l \<le> count_of (counter_add k w c) l"
  by (simp add: count_of_counter_add)

lemma category_desc_rule_mono: "count_of c l \<le> count_of (category_desc_rule agent c) l"
  unfolding category_desc_rule_def Let_def
  by (intro count_of_add_each_mono) (auto simp: weight_for_def)

lemma category_skill_step_mono: "count_of c l \<le> count_of (category_skill_step c skill) l"
  unfolding category_skill_step_def Let_def
  by (intro count_of_add_each_mono) (auto simp: weight_for_def)

lemma category_skill_rule_mono: "count_of c l \<le> count_of (category_skill_rule agent c) l"
proof -
  have "count_of c l \<le> count_of (foldl category_skill_step c ss) l" for ss
  proof (induction ss arbitrary: c)
    case Nil
    show ?case by simp
  next
    case (Cons s ss)
    have "count_of c l \<le> count_of (category_skill_step c s) l"
      by (rule category_skill_step_mono)
    also have "\<dots> \<le> count_of (foldl category_skill_step c (s # ss)) l"
      using Cons.IH by simp
    finally show ?case .
  qed
  then show ?thesis by (simp add: category_skill_rule_def)
qed

lemma category_name_rule_mono: "count_of c l \<le> count_of (category_name_rule agent c) l"
  unfolding category_name_rule_def Let_def
  by (intro count_of_add_each_mono) (auto simp: weight_for_def)

lemma category_sample_rule_mono: "count_of c l \<le> count_of (category_sample_rule agent c) l"
  by (simp add: category_sample_rule_def count_of_counter_add)

lemma category_utility_rule_mono: "count_of c l \<le> count_of (category_utility_rule agent c) l"
  by (simp add: category_utility_rule_def count_of_counter_add)

lemma category_candidates_ge_tag_rule:
  "count_of (category_tag_rule agent []) l \<le> count_of (category_candidates agent) l"
  unfolding category_candidates_def
  by (meson order_trans category_desc_rule_mono category_skill_rule_mono
      category_name_rule_mono category_sample_rule_mono category_utility_rule_mono)

lemma lower_business: "lower ''business'' = ''business''" "lower ''commerce'' = ''commerce''"
  by code_simp+

lemma business_tag_scores_enterprise:
  assumes "''business'' \<in> lower_tags (tags agent) \<or> ''commerce'' \<in> lower_tags (tags agent)"
  shows "3 \<le> count_of (category_tag_rule agent []) ''enterprise''"
proof -
  let ?tags = "lower_tags (tags agent)"
  let ?f = "\<lambda>(tag_set, label, min_matches).
              (let matches = card (?tags \<inter> set tag_set) in
               if min_matches \<le> matches then Some (label, 3 * int matches) else None)"
  let ?rule = "([''business'', ''commerce''], ''enterprise'', 1 :: nat)"
  have mem: "?rule \<in> set TAG_CATEGORY_RULES"
    by (simp add: TAG_CATEGORY_RULES_def)
  have nonneg: "\<forall>x \<in> set TAG_CATEGORY_RULES. 0 \<le> weight_for ?f ''enterprise'' x"
    by (auto simp: weight_for_def Let_def)
  have "?tags \<inter> set [''business'', ''commerce''] \<noteq> {}"
    using assms by auto
  then have "1 \<le> card (?tags \<inter> set [''business'', ''commerce''])"
    by (simp add: Suc_leI card_gt_0_iff)
  then have "3 \<le> weight_for ?f ''enterprise'' ?rule"
    by (simp add: weight_for_def Let_def)
  moreover have "count_of [] ''enterprise'' + weight_for ?f ''enterprise'' ?rule
      \<le> count_of (add_each ?f TAG_CATEGORY_RULES []) ''enterprise''"
    using nonneg mem by (rule count_of_add_each_ge)
  ultimately show ?thesis
    by (simp add: category_tag_rule_def Let_def count_of_def)
qed

lemma lifie_agent_scores_enterprise:
  assumes "is_lifie_business_agent agent"
  shows "\<exists>s. 3 \<le> s \<and> (''enterprise'', s) \<in> set (category_candidates agent)"
proof -
  from assms have "''business'' \<in> set (dict_get (tags agent) []) \<or>
      ''commerce'' \<in> set (dict_get (tags agent) [])"
    by (simp add: is_lifie_business_agent_def Let_def)
  moreover have "lower x \<in> lower_tags (tags agent)"
    if "x \<in> set (dict_get (tags agent) [])" for x
    using that by (simp add: lower_tags_def)
  ultimately have "lower ''business'' \<in> lower_tags (tags agent) \<or>
      lower ''commerce'' \<in> lower_tags (tags agent)"
    by blast
  then have "''business'' \<in> lower_tags (tags agent) \<or> ''commerce'' \<in> lower_tags (tags agent)"
    by (simp only: lower_business)
  then have "3 \<le> count_of (category_tag_rule agent []) ''enterprise''"
    by (rule business_tag_scores_enterprise)
  then have 3: "3 \<le> count_of (category_candidates agent) ''enterprise''"
    using category_candidates_ge_tag_rule [of agent "''enterprise''"] by simp
  then have "(''enterprise'', count_of (category_candidates agent) ''enterprise'')
      \<in> set (category_candidates agent)"
    by (intro count_of_present) simp
  with 3 show ?thesis by blast
qed

lemma floor_gate:
  assumes "\<forall>(l, s) \<in> set c. s < (2 :: int)" and "c \<noteq> []"
  shows "\<exists>x. py_index (most_common 1 c) 0 = Inr x \<and> snd x < 2"
proof -
  obtain x where "most_common 1 c = [x]" "x \<in> set c"
    using most_common_one [OF assms(2)] by blast
  with assms(1) show ?thesis
    by (auto simp: py_index_single)
qed

section \<open>The labels of a category tally\<close>

lemma tag_rule_labels:
  "list_all (\<lambda>(tag_set, label, min_matches). label \<in> set inferred_categories) TAG_CATEGORY_RULES"
  by code_simp

lemma desc_pattern_labels:
  "list_all (\<lambda>(pattern, label). label \<in> set inferred_categories) DESC_CATEGORY_PATTERNS"
  by code_simp

lemma utility_label: "''utility'' \<in> set inferred_categories"
  by (simp add: inferred_categories_def)

lemma enterprise_label: "''enterprise'' \<in> set inferred_categories"
  by (simp add: inferred_categories_def)

lemma category_tag_rule_keys:
  "fst ` set (category_tag_rule agent c) \<subseteq> fst ` set c \<union> set inferred_categories"
  using tag_rule_labels
  by (auto simp: category_tag_rule_def keys_add_each list_all_iff Let_def split: if_splits)

lemma category_desc_rule_keys:
  "fst ` set (category_desc_rule agent c) \<subseteq> fst ` set c \<union> set inferred_categories"
  using desc_pattern_labels
  by (auto simp: category_desc_rule_def keys_add_each list_all_iff Let_def split: if_splits)

lemma category_skill_step_keys:
  "fst ` set (category_skill_step c skill) \<subseteq> fst ` set c \<union> set inferred_categories"
  using tag_rule_labels
  by (auto simp: category_skill_step_def keys_add_each list_all_iff Let_def split: if_splits)

lemma category_skill_rule_keys:
  "fst ` set (category_skill_rule agent c) \<subseteq> fst ` set c \<union> set inferred_categories"
proof -
  have "fst ` set (foldl category_skill_step c ss) \<subseteq> fst ` set c \<union> set inferred_categories"
    for ss
  proof (induction ss arbitrary: c)
    case Nil
    show ?case by simp
  next
    case (Cons s ss)
    have "fst ` set (foldl category_skill_step (category_skill_step c s) ss)
        \<subseteq> fst ` set (category_skill_step c s) \<union> set inferred_categories"
      by (rule Cons.IH)
    also have "\<dots> \<subseteq> fst ` set c \<union> set inferred_categories"
      using category_skill_step_keys [of c s] by blast
    finally show ?case by simp
  qed
  then show ?thesis by (simp add: category_skill_rule_def)
qed

lemma keys_add_each_pairs:
  "fst ` set (add_each (\<lambda>(p, l). if P p then Some (l, w) else None) xs c)
     \<subseteq> fst ` set c \<union> snd ` set xs"
proof -
  have "k \<in> snd ` set xs"
    if "x \<in> set xs" and "(\<lambda>(p, l). if P p then Some (l, w) else None) x = Some (k, w')"
    for k x w'
  proof -
    obtain p l where x: "x = (p, l)" by (cases x)
    with that(2) have "l = k" by (simp split: if_splits)
    with that(1) x show ?thesis by force
  qed
  then show ?thesis unfolding keys_add_each by blast
qed

lemma category_name_rule_keys:
  "fst ` set (category_name_rule agent c) \<subseteq> fst ` set c \<union> set inferred_categories"
proof -
  have "fst ` set (category_name_rule agent c) \<subseteq> fst ` set c \<union>
      set [''search'', ''security'', ''finance'', ''travel'', ''media-content'',
           ''code-generation'', ''data-analytics'', ''conversational'', ''orchestration'',
           ''infrastructure'']"
    unfolding category_name_rule_def Let_def
    by (rule order_trans [OF keys_add_each_pairs]) simp
  moreover have "set [''search'', ''security'', ''finance'', ''travel'', ''media-content'',
           ''code-generation'', ''data-analytics'', ''conversational'', ''orchestration'',
           ''infrastructure''] \<subseteq> set inferred_categories"
    by (simp add: inferred_categories_def)
  ultimately show ?thesis by blast
qed

lemma category_sample_rule_keys:
  "fst ` set (category_sample_rule agent c) \<subseteq> fst ` set c \<union> set inferred_categories"
  using utility_label by (auto simp: category_sample_rule_def keys_counter_add)

lemma category_utility_rule_keys:
  "fst ` set (category_utility_rule agent c) \<subseteq> fst ` set c \<union> set inferred_categories"
  using utility_label by (auto simp: category_utility_rule_def keys_counter_add)

lemma category_candidates_keys:
  "fst ` set (category_candidates agent) \<subseteq> set inferred_categories"
proof -
  let ?L = "set inferred_categories"
  have 1: "fst ` set (category_tag_rule agent []) \<subseteq> ?L"
    using category_tag_rule_keys [of agent "[]"] by simp
  have 2: "fst ` set (category_desc_rule agent (category_tag_rule agent [])) \<subseteq> ?L"
    using category_desc_rule_keys 1 by blast
  have 3: "fst ` set (category_skill_rule agent
      (category_desc_rule agent (category_tag_rule agent []))) \<subseteq> ?L"
    using category_skill_rule_keys 2 by blast
  have 4: "fst ` set (category_name_rule agent (category_skill_rule agent
      (category_desc_rule agent (category_tag_rule agent [])))) \<subseteq> ?L"
    using category_name_rule_keys 3 by blast
  have 5: "fst ` set (category_sample_rule agent (category_name_rule agent
      (category_skill_rule agent (category_desc_rule agent (category_tag_rule agent [])))))
      \<subseteq> ?L"
    using category_sample_rule_keys 4 by blast
  show ?thesis
    unfolding category_candidates_def
    using category_utility_rule_keys 5 by blast
qed

lemma infer_category_label:
  assumes "infer_category agent = Inr (Some l)"
  shows "l \<in> set inferred_categories"
proof (cases "is_lifie_business_agent agent")
  case True
  with assms show ?thesis using enterprise_label by (auto simp: infer_category_def)
next
  case False
  let ?c = "category_candidates agent"
  from assms False have ne: "?c \<noteq> []"
    by (auto simp: infer_category_def Let_def split: if_splits)
  then obtain x where x: "most_common 1 ?c = [x]" "x \<in> set ?c"
    using most_common_one by blast
  with assms False ne have "l = fst x"
    by (auto simp: infer_category_def Let_def py_index_single split: if_splits)
  with x(2) category_candidates_keys [of agent] show ?thesis by auto
qed

section \<open>The driver\<close>

lemma infer_category_ignores_language:
  "infer_category (agent\<lparr>language := x\<rparr>) = infer_category agent"
  by (simp add: infer_category_def category_candidates_def is_lifie_business_agent_def
      category_tag_rule_def category_desc_rule_def category_skill_rule_def
      category_name_rule_def category_sample_rule_def category_utility_rule_def name_slug_def)

lemma framework_candidates_ignores_axes:
  "framework_candidates (agent\<lparr>language := x\<rparr>) = framework_candidates agent"
  "framework_candidates (agent\<lparr>category := y\<rparr>) = framework_candidates agent"
  by (simp_all add: framework_candidates_def framework_tag_rule_def framework_text_rule_def
      framework_sample_rule_def all_text_def)

lemma has_adk_tag_ignores_axes:
  "has_adk_tag (agent\<lparr>language := x\<rparr>) = has_adk_tag agent"
  "has_adk_tag (agent\<lparr>category := y\<rparr>) = has_adk_tag agent"
  by (simp_all add: has_adk_tag_def)

lemma infer_framework_ignores_language:
  "infer_framework (agent\<lparr>language := x\<rparr>) = infer_framework agent"
  unfolding infer_framework_def framework_candidates_ignores_axes has_adk_tag_ignores_axes
  by (rule refl)

lemma infer_framework_ignores_category:
  "infer_framework (agent\<lparr>category := y\<rparr>) = infer_framework agent"
  unfolding infer_framework_def framework_candidates_ignores_axes has_adk_tag_ignores_axes
  by (rule refl)

lemma enrich_agent_resolved: "resolved agent \<Longrightarrow> enrich_agent agent stats = Inr (agent, stats)"
  by (simp add: resolved_def enrich_agent_def enrich_language_def enrich_category_def
      enrich_framework_def)

lemma enrich_files_resolved:
  "\<forall>agent \<in> set files. resolved agent \<Longrightarrow> enrich_files files stats = Inr (files, stats)"
  by (induction files) (simp_all add: enrich_agent_resolved)

lemma enrich_agent_total: "\<exists>agent' stats'. enrich_agent agent stats = Inr (agent', stats')"
proof -
  obtain rl rc rf where r: "infer_language agent = Inr rl" "infer_category agent = Inr rc"
      "infer_framework agent = Inr rf"
    using infer_language_total infer_category_total infer_framework_total by blast
  show ?thesis
    by (simp add: enrich_agent_def enrich_language_def enrich_category_def
        enrich_framework_def r infer_category_ignores_language
        infer_framework_ignores_language infer_framework_ignores_category)
qed

lemma enrich_agent_axes:
  assumes "enrich_agent agent stats = Inr (agent', stats')"
  shows "language agent \<noteq> Some ''unknown'' \<Longrightarrow>
           language agent' = language agent \<and>
           language_changed stats' = language_changed stats \<and>
           language_still_unknown stats' = language_still_unknown stats"
    and "category agent \<noteq> Some ''general'' \<Longrightarrow>
           category agent' = category agent \<and>
           category_changed stats' = category_changed stats \<and>
           category_still_general stats' = category_still_general stats"
    and "framework agent \<noteq> Some ''custom'' \<Longrightarrow>
           framework agent' = framework agent \<and>
           framework_changed stats' = framework_changed stats \<and>
           framework_still_custom stats' = framework_still_custom stats"
    and "language agent = Some ''unknown'' \<Longrightarrow> infer_language agent = Inr None \<Longrightarrow>
           language agent' = Some ''unknown'' \<and>
           language_still_unknown stats' = language_still_unknown stats + 1"
    and "category agent = Some ''general'' \<Longrightarrow> infer_category agent = Inr None \<Longrightarrow>
           category agent' = Some ''general'' \<and>
           category_still_general stats' = category_still_general stats + 1"
    and "framework agent = Some ''custom'' \<Longrightarrow> infer_framework agent = Inr None \<Longrightarrow>
           framework agent' = Some ''custom'' \<and>
           framework_still_custom stats' = framework_still_custom stats + 1"
proof -
  obtain rl rc rf where r: "infer_language agent = Inr rl" "infer_category agent = Inr rc"
      "infer_framework agent = Inr rf"
    using infer_language_total infer_category_total infer_framework_total by blast
  note defs = enrich_agent_def enrich_language_def enrich_category_def
        enrich_framework_def r infer_category_ignores_language
        infer_framework_ignores_language infer_framework_ignores_category truthy_def
  show "language agent \<noteq> Some ''unknown'' \<Longrightarrow>
           language agent' = language agent \<and>
           language_changed stats' = language_changed stats \<and>
           language_still_unknown stats' = language_still_unknown stats"
    using assms by (auto simp: defs split: if_splits)
  show "category agent \<noteq> Some ''general'' \<Longrightarrow>
           category agent' = category agent \<and>
           category_changed stats' = category_changed stats \<and>
           category_still_general stats' = category_still_general stats"
    using assms by (auto simp: defs split: if_splits)
  show "framework agent \<noteq> Some ''custom'' \<Longrightarrow>
           framework agent' = framework agent \<and>
           framework_changed stats' = framework_changed stats \<and>
           framework_still_custom stats' = framework_still_custom stats"
    using assms by (auto simp: defs split: if_splits)
  show "language agent = Some ''unknown'' \<Longrightarrow> infer_language agent = Inr None \<Longrightarrow>
           language agent' = Some ''unknown'' \<and>
           language_still_unknown stats' = language_still_unknown stats + 1"
    using assms by (auto simp: defs split: if_splits)
  show "category agent = Some ''general'' \<Longrightarrow> infer_category agent = Inr None \<Longrightarrow>
           category agent' = Some ''general'' \<and>
           category_still_general stats' = category_still_general stats + 1"
    using assms by (auto simp: defs split: if_splits)
  show "framework agent = Some ''custom'' \<Longrightarrow> infer_framework agent = Inr None \<Longrightarrow>
           framework agent' = Some ''custom'' \<and>
           framework_still_custom stats' = framework_still_custom stats + 1"
    using assms by (auto simp: defs split: if_splits)
qed


section \<open>The counts of a framework tally\<close>

lemma count_of_empty: "count_of [] l = 0"
  by (simp add: count_of_def)

lemma framework_tag_rule_count:
  "count_of (framework_tag_rule agent c) l = count_of c l + tag_score agent l"
  by (simp add: framework_tag_rule_def tag_score_def count_of_add_each)

lemma framework_text_rule_count:
  "count_of (framework_text_rule agent c) l = count_of c l + pattern_score 2 (all_text agent) l"
  by (simp add: framework_text_rule_def pattern_score_def count_of_add_each)

lemma framework_candidates_count:
  "\<exists>c. framework_candidates agent = Inr c \<and> distinct (map fst c) \<and>
       (\<forall>l. count_of c l =
              tag_score agent l + pattern_score 2 (all_text agent) l + sample_score agent l)"
proof -
  let ?t = "framework_text_rule agent (framework_tag_rule agent [])"
  have d: "distinct (map fst ?t)"
    by (simp add: framework_text_rule_def framework_tag_rule_def distinct_add_each)
  have t: "count_of ?t l = tag_score agent l + pattern_score 2 (all_text agent) l" for l
    by (simp add: framework_text_rule_count framework_tag_rule_count count_of_empty)
  show ?thesis
  proof (cases "contains ''Official A2A'' (dict_get (description agent) [])")
    case False
    then have "framework_candidates agent = Inr ?t"
      by (simp add: framework_candidates_def framework_sample_rule_def)
    moreover from False have "sample_score agent l = 0" for l
      by (simp add: sample_score_def)
    ultimately show ?thesis using d t by simp
  next
    case True
    let ?s = "if contains '':'' (dict_get (description agent) [])
              then lower (strip (last (str_split CHR '':'' (dict_get (description agent) []))))
              else []"
    let ?c = "add_each (\<lambda>(pattern, fw). if re_search_i pattern ?s then Some (fw, 4) else None)
                FRAMEWORK_DETECTION ?t"
    from True have "framework_candidates agent = Inr ?c"
      by (simp add: framework_candidates_def framework_sample_rule_def sample_name_total)
    moreover have "distinct (map fst ?c)"
      using d by (rule distinct_add_each)
    moreover have "count_of ?c l =
        tag_score agent l + pattern_score 2 (all_text agent) l + sample_score agent l" for l
      using True by (simp add: count_of_add_each t sample_score_def pattern_score_def)
    ultimately show ?thesis by blast
  qed
qed

lemma pattern_score_nonneg: "0 \<le> w \<Longrightarrow> 0 \<le> pattern_score w text l"
  unfolding pattern_score_def
  by (intro sum_list_nonneg) (auto simp: weight_for_def)

lemma sample_score_nonneg: "0 \<le> sample_score agent l"
  by (simp add: sample_score_def Let_def pattern_score_nonneg)

lemma adk_tags_map:
  "list_all (\<lambda>k. map_of TAG_TO_FRAMEWORK k = Some ''google-adk'')
     [''adk'', ''adk-google'', ''adk-python'', ''google-adk'']"
  by code_simp

lemma adk_tag_weight:
  assumes "lower t \<in> set [''adk'', ''adk-google'', ''adk-python'', ''google-adk'']"
  shows "weight_for (\<lambda>tag. case map_of TAG_TO_FRAMEWORK (lower tag) of
                              None \<Rightarrow> None
                            | Some fw \<Rightarrow> Some (fw, 3)) l t
         = (if l = ''google-adk'' then 3 else 0)"
proof -
  from assms adk_tags_map have "map_of TAG_TO_FRAMEWORK (lower t) = Some ''google-adk''"
    unfolding list_all_iff by blast
  then show ?thesis by (auto simp: weight_for_def)
qed

lemma tag_score_nonneg: "0 \<le> tag_score agent l"
  unfolding tag_score_def
  by (intro sum_list_nonneg) (auto simp: weight_for_def split: option.splits)

lemma adk_tag_scores:
  assumes "has_adk_tag agent"
  shows "3 \<le> tag_score agent ''google-adk''"
proof -
  let ?f = "\<lambda>tag. case map_of TAG_TO_FRAMEWORK (lower tag) of
                     None \<Rightarrow> None
                   | Some fw \<Rightarrow> Some (fw, 3 :: int)"
  from assms obtain t where t: "t \<in> set (dict_get (tags agent) [])"
      "lower t \<in> set [''adk'', ''adk-google'', ''adk-python'', ''google-adk'']"
    by (auto simp: has_adk_tag_def list_ex_iff)
  have "weight_for ?f ''google-adk'' t \<le>
      sum_list (map (weight_for ?f ''google-adk'') (dict_get (tags agent) []))"
    using t(1) by (intro weight_le_sum_list) (auto simp: weight_for_def split: option.splits)
  with adk_tag_weight [OF t(2), of "''google-adk''"] show ?thesis
    by (simp add: tag_score_def)
qed

lemma tag_score_insert:
  assumes "dict_get (tags agent) [] = before @ after"
    and "lower t \<in> set [''adk'', ''adk-google'', ''adk-python'', ''google-adk'']"
  shows "tag_score (agent\<lparr>tags := Some (before @ t # after)\<rparr>) l =
         tag_score agent l + (if l = ''google-adk'' then 3 else 0)"
proof -
  have "dict_get (tags (agent\<lparr>tags := Some (before @ t # after)\<rparr>)) [] = before @ t # after"
    by (simp add: dict_get_def)
  then show ?thesis
    using adk_tag_weight [OF assms(2), of l]
    by (simp add: tag_score_def assms(1))
qed

lemma scores_ignore_tags:
  "all_text (agent\<lparr>tags := ts\<rparr>) = all_text agent"
  "sample_score (agent\<lparr>tags := ts\<rparr>) l = sample_score agent l"
  by (simp_all add: all_text_def sample_score_def Let_def)

section \<open>A framework named after the last colon\<close>

lemma search_from_append:
  assumes "rmatch ic r (if A = [] then p else Some (last A), rest) \<noteq> []"
  shows "search_from ic r p (A @ rest)"
  using assms
proof (induction A arbitrary: p)
  case Nil
  then show ?case by (cases rest) simp_all
next
  case (Cons a A)
  have "search_from ic r (Some a) (A @ rest)"
    using Cons.prems by (intro Cons.IH) (simp split: if_splits)
  then show ?case by simp
qed

lemma space_not_word: "is_space_char c \<Longrightarrow> \<not> is_word_char c"
  by (auto simp: is_space_char_def is_word_char_def Let_def)

lemma is_word_lower_char: "is_word_char (lower_char x) = is_word_char x"
  by (auto simp: is_word_char_def lower_char_def Let_def)

lemma str_split_last:
  "\<exists>pre. s = pre @ last (str_split sep s) \<and>
         (if length (str_split sep s) = 1 then pre = [] else pre \<noteq> [] \<and> last pre = sep)"
proof (induction s)
  case Nil
  show ?case by simp
next
  case (Cons x s)
  then obtain pre where pre: "s = pre @ last (str_split sep s)"
      "if length (str_split sep s) = 1 then pre = [] else pre \<noteq> [] \<and> last pre = sep"
    by blast
  obtain w ws where w: "str_split sep s = w # ws"
    using str_split_not_empty [of sep s] by (cases "str_split sep s") auto
  show ?case
  proof (cases "x = sep")
    case True
    have "x # s = (x # pre) @ last (str_split sep (x # s))"
      using pre(1) True w by simp
    moreover have "last (x # pre) = sep"
      using pre(2) True by (simp split: if_splits)
    ultimately show ?thesis using True w by (intro exI [of _ "x # pre"]) simp
  next
    case False
    show ?thesis
    proof (cases "ws = []")
      case True
      with pre w have "s = w" by simp
      with False w True show ?thesis by (intro exI [of _ "[]"]) simp
    next
      case ne: False
      with pre w have "pre \<noteq> []" "last pre = sep" "s = pre @ last ws" by simp_all
      with False w ne show ?thesis by (intro exI [of _ "x # pre"]) simp
    qed
  qed
qed

lemma strip_parts:
  "\<exists>ws1 ws2. s = ws1 @ strip s @ ws2 \<and>
     (\<forall>c \<in> set ws1. is_space_char c) \<and> (\<forall>c \<in> set ws2. is_space_char c)"
proof -
  let ?d = "dropWhile is_space_char s"
  let ?ws1 = "takeWhile is_space_char s"
  let ?ws2 = "rev (takeWhile is_space_char (rev ?d))"
  have "strip s @ ?ws2 = rev (takeWhile is_space_char (rev ?d) @ dropWhile is_space_char (rev ?d))"
    by (simp only: strip_def rev_append)
  also have "\<dots> = rev (rev ?d)"
    by (simp only: takeWhile_dropWhile_id)
  finally have "?d = strip s @ ?ws2" by simp
  moreover have "s = ?ws1 @ ?d" by simp
  ultimately have "s = ?ws1 @ strip s @ ?ws2" by metis
  moreover have "\<forall>c \<in> set ?ws1. is_space_char c"
    by (auto dest: set_takeWhileD)
  moreover have "\<forall>c \<in> set ?ws2. is_space_char c"
    by (auto dest: set_takeWhileD)
  ultimately show ?thesis by blast
qed

lemma startswith_contains: "startswith s p \<Longrightarrow> contains p s"
  by (cases s; cases p) (auto split: if_splits)


lemma crewai_chars:
  "lower_char CHR ''c'' = CHR ''c''" "lower_char CHR ''r'' = CHR ''r''"
  "lower_char CHR ''e'' = CHR ''e''" "lower_char CHR ''w'' = CHR ''w''"
  "lower_char CHR ''a'' = CHR ''a''" "lower_char CHR ''i'' = CHR ''i''"
  "lower_char CHR ''-'' = CHR ''-''" "lower_char CHR '' '' = CHR '' ''"
  "is_word_char CHR ''c''" "is_word_char CHR ''i''"
  "\<not> is_word_char CHR '':''" "\<not> is_word_char CHR '' ''"
  by code_simp+

lemma crewai_found:
  assumes "lower X = ''crewai''" and "A \<noteq> []" and "\<not> is_word_char (last A)"
    and "B \<noteq> []" and "\<not> is_word_char (hd B)"
  shows "re_search_i (Cat [WordB, Lit ''crewai'', WordB]) (A @ X @ B)"
    and "re_search_i (Cat [WordB, Lit ''crew'', Opt (OneOf ''- ''), Lit ''ai'', WordB]) (A @ X @ B)"
proof -
  from assms(1) obtain x1 x2 x3 x4 x5 x6 where X: "X = [x1, x2, x3, x4, x5, x6]"
      and x: "lower_char x1 = CHR ''c''" "lower_char x2 = CHR ''r''" "lower_char x3 = CHR ''e''"
        "lower_char x4 = CHR ''w''" "lower_char x5 = CHR ''a''" "lower_char x6 = CHR ''i''"
    by (auto simp: lower_def map_eq_Cons_conv)
  from assms(4) obtain b B' where B: "B = b # B'" by (cases B) auto
  with assms(5) have b: "\<not> is_word_char b" by simp
  have w1: "is_word_char x1"
    using is_word_lower_char [of x1] x(1) crewai_chars(9) by simp
  have w6: "is_word_char x6"
    using is_word_lower_char [of x6] x(6) crewai_chars(10) by simp
  have 1: "rmatch True (Cat [WordB, Lit ''crewai'', WordB]) (Some (last A), X @ B) \<noteq> []"
    using assms(3) b w1 w6 x
    by (simp add: X B at_boundary_def chr_eq_def crewai_chars)
  have 2: "rmatch True (Cat [WordB, Lit ''crew'', Opt (OneOf ''- ''), Lit ''ai'', WordB])
      (Some (last A), X @ B) \<noteq> []"
    using assms(3) b w1 w6 x
    by (simp add: X B at_boundary_def chr_eq_def crewai_chars)
  show "re_search_i (Cat [WordB, Lit ''crewai'', WordB]) (A @ X @ B)"
    unfolding re_search_i_def using 1 assms(2) by (intro search_from_append) simp
  show "re_search_i (Cat [WordB, Lit ''crew'', Opt (OneOf ''- ''), Lit ''ai'', WordB]) (A @ X @ B)"
    unfolding re_search_i_def using 2 assms(2) by (intro search_from_append) simp
qed


lemma crewai_in_all_text:
  assumes "description agent = Some desc"
    and "lower (strip (last (str_split CHR '':'' desc))) = ''crewai''"
  shows "re_search_i (Cat [WordB, Lit ''crewai'', WordB]) (all_text agent)"
    and "re_search_i (Cat [WordB, Lit ''crew'', Opt (OneOf ''- ''), Lit ''ai'', WordB])
           (all_text agent)"
proof -
  let ?rest = "last (str_split CHR '':'' desc)"
  obtain pre where pre: "desc = pre @ ?rest"
      "if length (str_split CHR '':'' desc) = 1 then pre = []
       else pre \<noteq> [] \<and> last pre = CHR '':''"
    using str_split_last by blast
  obtain ws1 ws2 where ws: "?rest = ws1 @ strip ?rest @ ws2"
      "\<forall>c \<in> set ws1. is_space_char c" "\<forall>c \<in> set ws2. is_space_char c"
    using strip_parts by blast
  let ?A = "dict_get (name agent) [] @ '' '' @ dict_get (slug agent) [] @ '' '' @ pre @ ws1"
  let ?B = "ws2 @ '' '' @ dict_get (repository agent) []"
  have whole: "all_text agent = ?A @ strip ?rest @ ?B"
    using pre(1) ws(1) by (simp add: all_text_def assms(1) dict_get_def)
  have A: "?A \<noteq> []" by simp
  have lastA: "\<not> is_word_char (last ?A)"
  proof (cases "ws1 = []")
    case False
    then have "last ?A = last ws1" by simp
    moreover from False have "last ws1 \<in> set ws1" by simp
    ultimately show ?thesis using ws(2) space_not_word by auto
  next
    case True
    show ?thesis
    proof (cases "pre = []")
      case p: True
      with True show ?thesis by (simp add: crewai_chars)
    next
      case p: False
      with pre(2) have "last pre = CHR '':''" by (simp split: if_splits)
      with True p show ?thesis by (simp add: crewai_chars)
    qed
  qed
  have B: "?B \<noteq> []" by simp
  have hdB: "\<not> is_word_char (hd ?B)"
  proof (cases "ws2 = []")
    case True
    then show ?thesis by (simp add: crewai_chars)
  next
    case False
    then have "hd ?B = hd ws2" by simp
    moreover from False have "hd ws2 \<in> set ws2" by simp
    ultimately show ?thesis using ws(3) space_not_word by auto
  qed
  show "re_search_i (Cat [WordB, Lit ''crewai'', WordB]) (all_text agent)"
    unfolding whole using assms(2) A lastA B hdB by (rule crewai_found(1))
  show "re_search_i (Cat [WordB, Lit ''crew'', Opt (OneOf ''- ''), Lit ''ai'', WordB])
           (all_text agent)"
    unfolding whole using assms(2) A lastA B hdB by (rule crewai_found(2))
qed

lemma sum_list_all_zero:
  fixes g :: "'a \<Rightarrow> int"
  shows "\<forall>x \<in> set xs. g x = 0 \<Longrightarrow> sum_list (map g xs) = 0"
  by (induction xs) simp_all

lemma pattern_score_elsewhere:
  assumes "list_all (\<lambda>(pattern, fw). re_search_i pattern text \<longrightarrow> fw = k) FRAMEWORK_DETECTION"
    and "l \<noteq> k"
  shows "pattern_score w text l = 0"
  unfolding pattern_score_def
  using assms by (intro sum_list_all_zero) (auto simp: weight_for_def list_all_iff)

lemma crewai_sample_patterns:
  "list_all (\<lambda>(pattern, fw). re_search_i pattern ''crewai'' \<longrightarrow> fw = ''crewai'')
     FRAMEWORK_DETECTION"
  by code_simp

lemma crewai_sample_score: "pattern_score 4 ''crewai'' ''crewai'' = 8"
  by code_simp

lemma label_pattern_count:
  "sum_list (map (\<lambda>(pattern, fw). if fw = l then 2 else 0) FRAMEWORK_DETECTION) \<le> (8 :: int)"
proof (cases "l \<in> set (map snd FRAMEWORK_DETECTION)")
  case True
  have "list_all (\<lambda>l. sum_list (map (\<lambda>(pattern, fw). if fw = l then 2 else 0)
          FRAMEWORK_DETECTION) \<le> (8 :: int)) (map snd FRAMEWORK_DETECTION)"
    by code_simp
  with True show ?thesis unfolding list_all_iff by blast
next
  case False
  then have "sum_list (map (\<lambda>(pattern, fw). if fw = l then 2 else 0) FRAMEWORK_DETECTION)
      = (0 :: int)"
    by (intro sum_list_all_zero) force
  then show ?thesis by simp
qed

lemma pattern_score_le: "pattern_score 2 text l \<le> 8"
proof -
  have "pattern_score 2 text l
      \<le> sum_list (map (\<lambda>(pattern, fw). if fw = l then 2 else 0) FRAMEWORK_DETECTION)"
    unfolding pattern_score_def
    by (intro sum_list_mono) (auto simp: weight_for_def)
  with label_pattern_count [of l] show ?thesis by simp
qed

lemma pattern_score_crewai:
  assumes "re_search_i (Cat [WordB, Lit ''crewai'', WordB]) text"
    and "re_search_i (Cat [WordB, Lit ''crew'', Opt (OneOf ''- ''), Lit ''ai'', WordB]) text"
  shows "4 \<le> pattern_score 2 text ''crewai''"
proof -
  let ?w = "weight_for (\<lambda>(pattern, fw). if re_search_i pattern text then Some (fw, 2) else None)
              ''crewai''"
  have split: "FRAMEWORK_DETECTION = take 4 FRAMEWORK_DETECTION @
      [(Cat [WordB, Lit ''crewai'', WordB], ''crewai''),
       (Cat [WordB, Lit ''crew'', Opt (OneOf ''- ''), Lit ''ai'', WordB], ''crewai'')] @
      drop 6 FRAMEWORK_DETECTION"
    by (simp add: FRAMEWORK_DETECTION_def)
  have nonneg: "0 \<le> sum_list (map ?w xs)" for xs
    by (intro sum_list_nonneg) (auto simp: weight_for_def)
  have "pattern_score 2 text ''crewai'' =
      sum_list (map ?w (take 4 FRAMEWORK_DETECTION)) +
      (?w (Cat [WordB, Lit ''crewai'', WordB], ''crewai'') +
       (?w (Cat [WordB, Lit ''crew'', Opt (OneOf ''- ''), Lit ''ai'', WordB], ''crewai'') +
        sum_list (map ?w (drop 6 FRAMEWORK_DETECTION))))"
    unfolding pattern_score_def by (subst split) (simp del: Cat.simps)
  moreover have "?w (Cat [WordB, Lit ''crewai'', WordB], ''crewai'') = 2"
    using assms(1) by (simp add: weight_for_def del: Cat.simps)
  moreover have "?w (Cat [WordB, Lit ''crew'', Opt (OneOf ''- ''), Lit ''ai'', WordB], ''crewai'') = 2"
    using assms(2) by (simp add: weight_for_def del: Cat.simps)
  ultimately show ?thesis
    using nonneg [of "take 4 FRAMEWORK_DETECTION"] nonneg [of "drop 6 FRAMEWORK_DETECTION"]
    by simp
qed

section \<open>Ties\<close>

text \<open>
  C1, language axis. When two distinct labels of the tally of \<^verbatim>\<open>infer_language\<close> share
  the highest score, the result is no decision, whatever that score is.
\<close>

theorem language_tie_rejected:
  assumes "language_candidates agent = Inr candidates"
    and "(l1, s) \<in> set candidates" and "(l2, s) \<in> set candidates" and "l1 \<noteq> l2"
    and "\<forall>(l, s') \<in> set candidates. s' \<le> s"
  shows "infer_language agent = Inr None"
proof -
  from assms(2) have ne: "candidates \<noteq> []" by auto
  then obtain x where x: "most_common 1 candidates = [x]"
    using most_common_one by blast
  obtain a b where ab: "most_common 2 candidates = [a, b]" "snd a = s" "snd b = s"
    using most_common_two_tie [OF assms(2-5)] by blast
  have "py_index [a, b] 0 = Inr a" "py_index [a, b] 1 = Inr b"
    by (simp_all add: py_index_def)
  with x ab show ?thesis
    by (simp add: infer_language_def assms(1) ne py_index_single)
qed

text \<open>A record whose only signals are the tags \<^verbatim>\<open>go\<close> and \<^verbatim>\<open>rust\<close>.\<close>

theorem language_tie_rejected_witness:
  "language_candidates go_rust_agent = Inr [(''go'', 3), (''rust'', 3)] \<and>
   infer_language go_rust_agent = Inr None"
proof -
  have c: "language_candidates go_rust_agent = Inr [(''go'', 3), (''rust'', 3)]"
    by code_simp
  show ?thesis
    using c language_tie_rejected [OF c, of "''go''" 3 "''rust''"] by simp
qed

text \<open>
  C1, framework axis. \<^verbatim>\<open>infer_framework\<close> has no tie check: two labels with the same
  highest score, and the one tallied first is returned.
\<close>

theorem framework_tie_counterexample:
  "framework_candidates langgraph_crewai_agent = Inr [(''langgraph'', 3), (''crewai'', 3)] \<and>
   infer_framework langgraph_crewai_agent = Inr (Some ''langgraph'')"
  by code_simp

section \<open>Sentinels\<close>

text \<open>
  C2. The driver runs an inference only for an axis that holds its sentinel: each run is
  counted, as a change or as a record still unresolved, and for any other axis neither
  counter moves and the value stays. When the inference gives no decision the sentinel
  stays. A record with no sentinel, and a list of such records, comes back as it was.
\<close>

theorem enrich_only_sentinel_axes:
  "\<exists>agent' stats'. enrich_agent agent stats = Inr (agent', stats') \<and>
     (language agent \<noteq> Some ''unknown'' \<longrightarrow>
        language agent' = language agent \<and>
        language_changed stats' = language_changed stats \<and>
        language_still_unknown stats' = language_still_unknown stats) \<and>
     (category agent \<noteq> Some ''general'' \<longrightarrow>
        category agent' = category agent \<and>
        category_changed stats' = category_changed stats \<and>
        category_still_general stats' = category_still_general stats) \<and>
     (framework agent \<noteq> Some ''custom'' \<longrightarrow>
        framework agent' = framework agent \<and>
        framework_changed stats' = framework_changed stats \<and>
        framework_still_custom stats' = framework_still_custom stats) \<and>
     (language agent = Some ''unknown'' \<and> infer_language agent = Inr None \<longrightarrow>
        language agent' = Some ''unknown'' \<and>
        language_still_unknown stats' = language_still_unknown stats + 1) \<and>
     (category agent = Some ''general'' \<and> infer_category agent = Inr None \<longrightarrow>
        category agent' = Some ''general'' \<and>
        category_still_general stats' = category_still_general stats + 1) \<and>
     (framework agent = Some ''custom'' \<and> infer_framework agent = Inr None \<longrightarrow>
        framework agent' = Some ''custom'' \<and>
        framework_still_custom stats' = framework_still_custom stats + 1) \<and>
     (language agent \<noteq> Some ''unknown'' \<and> category agent \<noteq> Some ''general'' \<and>
      framework agent \<noteq> Some ''custom'' \<longrightarrow> agent' = agent \<and> stats' = stats) \<and>
     ((\<forall>a \<in> set files. language a \<noteq> Some ''unknown'' \<and> category a \<noteq> Some ''general'' \<and>
          framework a \<noteq> Some ''custom'') \<longrightarrow>
        enrich_files files stats = Inr (files, stats))"
proof -
  obtain agent' stats' where e: "enrich_agent agent stats = Inr (agent', stats')"
    using enrich_agent_total by blast
  have fixed: "agent' = agent \<and> stats' = stats" if "resolved agent"
    using enrich_agent_resolved [OF that, of stats] e by simp
  have batch: "enrich_files files stats = Inr (files, stats)"
    if "\<forall>a \<in> set files. resolved a"
    using that by (rule enrich_files_resolved)
  show ?thesis
    using e enrich_agent_axes [OF e] fixed batch
    unfolding resolved_def by blast
qed

theorem enrich_only_sentinel_axes_witness:
  "enrich_agent resolved_agent initial_stats = Inr (resolved_agent, initial_stats) \<and>
   enrich_agents [resolved_agent, resolved_agent]
     = Inr ([resolved_agent, resolved_agent], initial_stats) \<and>
   (\<exists>agent' stats'. enrich_agent unresolved_agent initial_stats = Inr (agent', stats') \<and>
      language agent' = Some ''unknown'' \<and> category agent' = Some ''general'' \<and>
      framework agent' = Some ''custom'' \<and> language_still_unknown stats' = 1 \<and>
      category_still_general stats' = 1 \<and> framework_still_custom stats' = 1)"
proof -
  have r: "language resolved_agent \<noteq> Some ''unknown''"
      "category resolved_agent \<noteq> Some ''general''"
      "framework resolved_agent \<noteq> Some ''custom''"
    by (simp_all add: resolved_agent_def empty_agent_def)
  have u: "language unresolved_agent = Some ''unknown''"
      "category unresolved_agent = Some ''general''"
      "framework unresolved_agent = Some ''custom''"
    by (simp_all add: unresolved_agent_def empty_agent_def)
  have l: "infer_language unresolved_agent = Inr None" by code_simp
  have c: "infer_category unresolved_agent = Inr None" by code_simp
  have f: "infer_framework unresolved_agent = Inr None" by code_simp
  have z: "language_still_unknown initial_stats = 0" "category_still_general initial_stats = 0"
      "framework_still_custom initial_stats = 0"
    by (simp_all add: initial_stats_def)
  show ?thesis
    using enrich_only_sentinel_axes
        [of resolved_agent initial_stats "[resolved_agent, resolved_agent]"]
      enrich_only_sentinel_axes [of unresolved_agent initial_stats "[]"] r u l c f z
    by (auto simp: enrich_agents_def)
qed

section \<open>The acceptance floor\<close>

text \<open>
  C3. A tally whose every score is below 2, the empty tally included, gives no decision on
  each of the three axes. The tally of \<^verbatim>\<open>infer_category\<close> is the one its rules give for
  the record: a record that takes the provider shortcut carries a tag that scores 3 for
  \<^verbatim>\<open>enterprise\<close>, so it is not below the floor.
\<close>

theorem floor_rejects:
  "(language_candidates agent = Inr c \<and> (\<forall>(l, s) \<in> set c. s < 2) \<longrightarrow>
      infer_language agent = Inr None) \<and>
   ((\<forall>(l, s) \<in> set (category_candidates agent). s < 2) \<longrightarrow>
      infer_category agent = Inr None) \<and>
   (framework_candidates agent = Inr c' \<and> (\<forall>(l, s) \<in> set c'. s < 2) \<longrightarrow>
      infer_framework agent = Inr None)"
proof (intro conjI impI)
  assume a: "language_candidates agent = Inr c \<and> (\<forall>(l, s) \<in> set c. s < 2)"
  show "infer_language agent = Inr None"
  proof (cases "c = []")
    case True
    with a show ?thesis by (simp add: infer_language_def)
  next
    case False
    with a obtain x where "py_index (most_common 1 c) 0 = Inr x" "snd x < 2"
      using floor_gate by blast
    with a False show ?thesis by (simp add: infer_language_def)
  qed
next
  assume a: "\<forall>(l, s) \<in> set (category_candidates agent). s < 2"
  have no: "\<not> is_lifie_business_agent agent"
    using lifie_agent_scores_enterprise [of agent] a by fastforce
  show "infer_category agent = Inr None"
  proof (cases "category_candidates agent = []")
    case True
    with no show ?thesis by (simp add: infer_category_def)
  next
    case False
    with a obtain x where "py_index (most_common 1 (category_candidates agent)) 0 = Inr x"
        "snd x < 2"
      using floor_gate by blast
    with no False show ?thesis by (simp add: infer_category_def Let_def)
  qed
next
  assume a: "framework_candidates agent = Inr c' \<and> (\<forall>(l, s) \<in> set c'. s < 2)"
  show "infer_framework agent = Inr None"
  proof (cases "c' = []")
    case True
    with a show ?thesis by (simp add: infer_framework_def)
  next
    case False
    with a obtain x where "py_index (most_common 1 c') 0 = Inr x" "snd x < 2"
      using floor_gate by blast
    with a False show ?thesis by (simp add: infer_framework_def)
  qed
qed

theorem floor_rejects_witness:
  "language_candidates weak_signal_agent = Inr [(''python'', 1)] \<and>
   category_candidates weak_signal_agent = [(''conversational'', 1)] \<and>
   framework_candidates weak_signal_agent = Inr [] \<and>
   infer_language weak_signal_agent = Inr None \<and>
   infer_category weak_signal_agent = Inr None \<and>
   infer_framework weak_signal_agent = Inr None"
proof -
  have l: "language_candidates weak_signal_agent = Inr [(''python'', 1)]"
    by code_simp
  have c: "category_candidates weak_signal_agent = [(''conversational'', 1)]"
    by code_simp
  have f: "framework_candidates weak_signal_agent = Inr []"
    by code_simp
  show ?thesis
    using floor_rejects [of weak_signal_agent "[(''python'', 1)]" "[]"] l c f by simp
qed

section \<open>The provider shortcut\<close>

text \<open>
  C4, as stated. A provider name that holds the marker in capitals only: the shortcut is not
  taken, and the description outweighs the tag.
\<close>

theorem lifie_case_counterexample:
  "provider lifie_upper_agent = Some \<lparr>provider_name = Some ''LIFIE AI'', provider_url = None\<rparr> \<and>
   contains (lower ''Lifie'') (lower ''LIFIE AI'') \<and>
   tags lifie_upper_agent = Some [''business''] \<and>
   infer_category lifie_upper_agent = Inr (Some ''utility'')"
  by code_simp

text \<open>
  C4, amended. The two tests are case-sensitive: \<^verbatim>\<open>Lifie\<close> in the provider name or
  \<^verbatim>\<open>lifie\<close> in the provider address. With one of the tags \<^verbatim>\<open>business\<close> and
  \<^verbatim>\<open>commerce\<close> the result is \<^verbatim>\<open>enterprise\<close>, whatever else the record holds.
\<close>

theorem lifie_override:
  assumes "provider agent = Some p"
    and "contains ''Lifie'' (dict_get (provider_name p) []) \<or>
         contains ''lifie'' (dict_get (provider_url p) [])"
    and "tags agent = Some ts"
    and "''business'' \<in> set ts \<or> ''commerce'' \<in> set ts"
  shows "infer_category agent = Inr (Some ''enterprise'')"
  using assms by (simp add: infer_category_def is_lifie_business_agent_def dict_get_def)

theorem lifie_override_witness:
  "category_candidates lifie_agent = [(''enterprise'', 3), (''utility'', 6)] \<and>
   infer_category lifie_agent = Inr (Some ''enterprise'')"
proof -
  have p: "provider lifie_agent = Some \<lparr>provider_name = Some ''Lifie AI'', provider_url = None\<rparr>"
    and t: "tags lifie_agent = Some [''business'']"
    by (simp_all add: lifie_agent_def empty_agent_def)
  have n: "contains ''Lifie'' (dict_get (provider_name
      \<lparr>provider_name = Some ''Lifie AI'', provider_url = None\<rparr>) [])"
    by code_simp
  have c: "category_candidates lifie_agent = [(''enterprise'', 3), (''utility'', 6)]"
    by code_simp
  show ?thesis
    using lifie_override [OF p _ t] n c by simp
qed

section \<open>The veto on the bare acronym\<close>

text \<open>
  C5. When \<^verbatim>\<open>google-adk\<close> is the top candidate with a score below 3, no tag of the record
  is one of the four corroborating tags (each of them adds 3), and the result is no decision.
  The same record with such a tag inserted anywhere among its tags resolves to
  \<^verbatim>\<open>google-adk\<close>.
\<close>

theorem adk_veto:
  assumes "framework_candidates agent = Inr c"
    and "most_common 1 c = [(''google-adk'', s)]" and "2 \<le> s" and "s < 3"
  shows "\<not> has_adk_tag agent \<and> infer_framework agent = Inr None \<and>
         (\<forall>t before after.
            lower t \<in> set [''adk'', ''adk-google'', ''adk-python'', ''google-adk''] \<and>
            dict_get (tags agent) [] = before @ after \<longrightarrow>
            infer_framework (agent\<lparr>tags := Some (before @ t # after)\<rparr>)
              = Inr (Some ''google-adk''))"
proof -
  obtain c0 where c0: "framework_candidates agent = Inr c0" "distinct (map fst c0)"
      "\<forall>l. count_of c0 l =
             tag_score agent l + pattern_score 2 (all_text agent) l + sample_score agent l"
    using framework_candidates_count by blast
  with assms(1) have c: "distinct (map fst c)"
      "\<And>l. count_of c l =
             tag_score agent l + pattern_score 2 (all_text agent) l + sample_score agent l"
    by simp_all
  from assms(2) have ne: "c \<noteq> []" by (auto simp: most_common_def)
  then obtain x where x: "most_common 1 c = [x]" "x \<in> set c" "\<forall>y \<in> set c. snd y \<le> snd x"
    using most_common_one by blast
  with assms(2) have top: "(''google-adk'', s) \<in> set c" "\<forall>y \<in> set c. snd y \<le> s"
    by auto
  then have s: "count_of c ''google-adk'' = s"
    using c(1) by (simp add: count_of_member)
  have others: "count_of c l \<le> s" for l
  proof (cases "l \<in> fst ` set c")
    case True
    then have "(l, count_of c l) \<in> set c" using c(1) by (rule member_count_of)
    with top(2) show ?thesis by auto
  next
    case False
    then have "count_of c l = 0" by (rule count_of_absent)
    with assms(3) show ?thesis by simp
  qed
  have no_tag: "\<not> has_adk_tag agent"
  proof
    assume "has_adk_tag agent"
    then have "3 \<le> tag_score agent ''google-adk''" by (rule adk_tag_scores)
    moreover have "0 \<le> pattern_score 2 (all_text agent) ''google-adk''"
      by (simp add: pattern_score_nonneg)
    moreover have "0 \<le> sample_score agent ''google-adk''"
      by (rule sample_score_nonneg)
    ultimately have "3 \<le> count_of c ''google-adk''"
      by (simp add: c(2))
    with s assms(4) show False by simp
  qed
  have none: "infer_framework agent = Inr None"
    using assms(1,2,4) ne no_tag
    by (simp add: infer_framework_def py_index_single)
  have tagged: "infer_framework (agent\<lparr>tags := Some (before @ t # after)\<rparr>)
      = Inr (Some ''google-adk'')"
    if t: "lower t \<in> set [''adk'', ''adk-google'', ''adk-python'', ''google-adk'']"
      and ts: "dict_get (tags agent) [] = before @ after"
    for t before after
  proof -
    let ?b = "agent\<lparr>tags := Some (before @ t # after)\<rparr>"
    obtain c' where c': "framework_candidates ?b = Inr c'" "distinct (map fst c')"
      "\<forall>l. count_of c' l =
             tag_score ?b l + pattern_score 2 (all_text ?b) l + sample_score ?b l"
      using framework_candidates_count by blast
    have cnt: "count_of c' l = count_of c l + (if l = ''google-adk'' then 3 else 0)" for l
      using c'(3) by (simp add: c(2) scores_ignore_tags tag_score_insert [OF ts t])
    have "count_of c' ''google-adk'' = s + 3"
      by (simp add: cnt s)
    moreover from this assms(3) have "(''google-adk'', count_of c' ''google-adk'') \<in> set c'"
      by (intro count_of_present) simp
    ultimately have mem: "(''google-adk'', s + 3) \<in> set c'" by simp
    have less: "\<forall>(k', v') \<in> set c'. k' \<noteq> ''google-adk'' \<longrightarrow> v' < s + 3"
    proof (clarify)
      fix k' v'
      assume kv: "(k', v') \<in> set c'" and k': "k' \<noteq> ''google-adk''"
      from kv c'(2) have "count_of c' k' = v'" by (simp add: count_of_member)
      with cnt [of k'] k' others [of k'] show "v' < s + 3" by simp
    qed
    have "most_common 1 c' = [(''google-adk'', s + 3)]"
      using mem less c'(2) by (rule most_common_one_strict)
    moreover from mem have "c' \<noteq> []" by auto
    ultimately show ?thesis
      using assms(3) by (simp add: infer_framework_def c'(1) py_index_single)
  qed
  from no_tag none tagged show ?thesis by blast
qed

theorem adk_veto_witness:
  "framework_candidates bare_adk_agent = Inr [(''google-adk'', 2)] \<and>
   infer_framework bare_adk_agent = Inr None \<and>
   infer_framework (bare_adk_agent\<lparr>tags := Some [''google-adk'']\<rparr>) = Inr (Some ''google-adk'')"
proof -
  have c: "framework_candidates bare_adk_agent = Inr [(''google-adk'', 2)]"
    by code_simp
  have m: "most_common 1 [(''google-adk'', 2)] = [(''google-adk'', 2)]"
    by (simp add: most_common_def)
  have t: "lower ''google-adk'' \<in> set [''adk'', ''adk-google'', ''adk-python'', ''google-adk'']"
    by code_simp
  have e: "dict_get (tags bare_adk_agent) [] = [] @ []"
    by (simp add: bare_adk_agent_def empty_agent_def dict_get_def)
  have v: "\<not> has_adk_tag bare_adk_agent \<and> infer_framework bare_adk_agent = Inr None \<and>
         (\<forall>t before after.
            lower t \<in> set [''adk'', ''adk-google'', ''adk-python'', ''google-adk''] \<and>
            dict_get (tags bare_adk_agent) [] = before @ after \<longrightarrow>
            infer_framework (bare_adk_agent\<lparr>tags := Some (before @ t # after)\<rparr>)
              = Inr (Some ''google-adk''))"
    by (rule adk_veto [OF c m]) simp_all
  then have "infer_framework (bare_adk_agent\<lparr>tags := Some ([] @ ''google-adk'' # [])\<rparr>)
      = Inr (Some ''google-adk'')"
    using t e by blast
  with v c show ?thesis by simp
qed

section \<open>The marker of an official sample\<close>

text \<open>
  C6, as stated. \<^verbatim>\<open>infer_framework\<close> tests whether the description contains the marker:
  here it stands in the middle, and the rule adds 4 to \<^verbatim>\<open>google-adk\<close>, which lifts the
  bare acronym over the veto.
\<close>

theorem midtext_marker_counterexample:
  "\<not> startswith (dict_get (description midtext_marker_agent) []) ''Official A2A'' \<and>
   framework_sample_rule midtext_marker_agent [] = Inr [(''google-adk'', 4)] \<and>
   framework_candidates midtext_marker_agent = Inr [(''google-adk'', 6)] \<and>
   infer_framework midtext_marker_agent = Inr (Some ''google-adk'')"
  by code_simp

text \<open>
  C6, amended. The rule of \<^verbatim>\<open>infer_language\<close> adds nothing unless the description
  begins with the marker; the rule of \<^verbatim>\<open>infer_framework\<close> adds nothing unless the
  description contains it.
\<close>

theorem sample_rule_guards:
  "(\<not> startswith (dict_get (description agent) []) ''Official A2A'' \<longrightarrow>
      language_sample_rule agent c = c) \<and>
   (\<not> contains ''Official A2A'' (dict_get (description agent) []) \<longrightarrow>
      framework_sample_rule agent c = Inr c)"
  by (simp add: language_sample_rule_def framework_sample_rule_def)

theorem sample_rule_guards_witness:
  "contains ''Official A2A'' (dict_get (description midtext_marker_agent) []) \<and>
   language_sample_rule midtext_marker_agent [] = [] \<and>
   framework_sample_rule short_url_agent [] = Inr []"
proof -
  have a: "\<not> startswith (dict_get (description midtext_marker_agent) []) ''Official A2A''"
    by code_simp
  have b: "\<not> contains ''Official A2A'' (dict_get (description short_url_agent) [])"
    by code_simp
  have c: "contains ''Official A2A'' (dict_get (description midtext_marker_agent) [])"
    by code_simp
  show ?thesis
    using sample_rule_guards [of midtext_marker_agent "[]"]
      sample_rule_guards [of short_url_agent "[]"] a b c by simp
qed

section \<open>An official Crewai sample\<close>

text \<open>
  C7, as stated. Two official samples that name Crewai after the last colon and resolve to
  \<^verbatim>\<open>spring-boot\<close>: one through its tags and a keyword before the colon, one through the
  keywords that follow Crewai after the colon.
\<close>

theorem crewai_sample_counterexample:
  "startswith (dict_get (description spring_tagged_agent) []) ''Official A2A'' \<and>
   sample_name (dict_get (description spring_tagged_agent) []) = Inr ''crewai'' \<and>
   framework_candidates spring_tagged_agent = Inr [(''spring-boot'', 14), (''crewai'', 12)] \<and>
   infer_framework spring_tagged_agent = Inr (Some ''spring-boot'') \<and>
   startswith (dict_get (description crowded_sample_agent) []) ''Official A2A'' \<and>
   sample_name (dict_get (description crowded_sample_agent) [])
     = Inr ''crewai, spring boot, spring ai, springboot'' \<and>
   framework_candidates crowded_sample_agent = Inr [(''crewai'', 12), (''spring-boot'', 18)] \<and>
   infer_framework crowded_sample_agent = Inr (Some ''spring-boot'')"
  by code_simp

lemma tag_score_elsewhere:
  assumes "\<forall>t \<in> set (dict_get (tags agent) []).
      map_of TAG_TO_FRAMEWORK (lower t) = None \<or> map_of TAG_TO_FRAMEWORK (lower t) = Some k"
    and "l \<noteq> k"
  shows "tag_score agent l = 0"
  unfolding tag_score_def
  using assms by (intro sum_list_all_zero) (auto simp: weight_for_def)

text \<open>
  C7, amended. The description begins with the marker, the text after its last colon is
  Crewai and nothing else, and no tag names another framework: \<^verbatim>\<open>crewai\<close> scores at
  least 12 and every other label at most 8, whatever keywords the name, the slug, the
  repository and the rest of the description hold, and \<^verbatim>\<open>crewai\<close> is returned.
\<close>

theorem crewai_sample_dominates:
  assumes "description agent = Some desc"
    and "startswith desc ''Official A2A''" and "contains '':'' desc"
    and "lower (strip (last (str_split CHR '':'' desc))) = ''crewai''"
    and "\<forall>t \<in> set (dict_get (tags agent) []).
           map_of TAG_TO_FRAMEWORK (lower t) = None \<or>
           map_of TAG_TO_FRAMEWORK (lower t) = Some ''crewai''"
  shows "infer_framework agent = Inr (Some ''crewai'') \<and>
         (\<exists>c. framework_candidates agent = Inr c \<and> 12 \<le> count_of c ''crewai'' \<and>
              (\<forall>l. l \<noteq> ''crewai'' \<longrightarrow> count_of c l \<le> 8))"
proof -
  obtain c where c: "framework_candidates agent = Inr c" "distinct (map fst c)"
      "\<And>l. count_of c l =
             tag_score agent l + pattern_score 2 (all_text agent) l + sample_score agent l"
    using framework_candidates_count by blast
  have marker: "contains ''Official A2A'' desc"
    using assms(2) by (rule startswith_contains)
  have sample: "sample_score agent l = pattern_score 4 ''crewai'' l" for l
    by (simp add: sample_score_def Let_def assms(1,3,4) marker dict_get_def)
  have found: "4 \<le> pattern_score 2 (all_text agent) ''crewai''"
    using crewai_in_all_text [OF assms(1,4)] by (rule pattern_score_crewai)
  have top: "12 \<le> count_of c ''crewai''"
    using found tag_score_nonneg [of agent "''crewai''"]
    by (simp add: c(3) sample crewai_sample_score)
  have rest: "count_of c l \<le> 8" if "l \<noteq> ''crewai''" for l
    using that pattern_score_le [of "all_text agent" l]
    by (simp add: c(3) sample tag_score_elsewhere [OF assms(5)]
        pattern_score_elsewhere [OF crewai_sample_patterns])
  from top have mem: "(''crewai'', count_of c ''crewai'') \<in> set c"
    by (intro count_of_present) simp
  have less: "\<forall>(k', v') \<in> set c. k' \<noteq> ''crewai'' \<longrightarrow> v' < count_of c ''crewai''"
  proof (clarify)
    fix k' v'
    assume kv: "(k', v') \<in> set c" and k': "k' \<noteq> ''crewai''"
    from kv c(2) have "count_of c k' = v'" by (simp add: count_of_member)
    with rest [OF k'] top show "v' < count_of c ''crewai''" by simp
  qed
  have "most_common 1 c = [(''crewai'', count_of c ''crewai'')]"
    using mem less c(2) by (rule most_common_one_strict)
  moreover from mem have "c \<noteq> []" by auto
  ultimately have "infer_framework agent = Inr (Some ''crewai'')"
    using top by (simp add: infer_framework_def c(1) py_index_single)
  with c(1) top rest show ?thesis by blast
qed

theorem crewai_sample_dominates_witness:
  "framework_candidates crewai_sample_agent = Inr [(''crewai'', 15), (''langgraph'', 2)] \<and>
   infer_framework crewai_sample_agent = Inr (Some ''crewai'')"
proof -
  let ?desc = "''Official A2A LangGraph sample: Crewai''"
  have d: "description crewai_sample_agent = Some ?desc"
    by (simp add: crewai_sample_agent_def empty_agent_def)
  have m: "startswith ?desc ''Official A2A''" by code_simp
  have k: "contains '':'' ?desc" by code_simp
  have n: "lower (strip (last (str_split CHR '':'' ?desc))) = ''crewai''" by code_simp
  have t: "\<forall>t \<in> set (dict_get (tags crewai_sample_agent) []).
           map_of TAG_TO_FRAMEWORK (lower t) = None \<or>
           map_of TAG_TO_FRAMEWORK (lower t) = Some ''crewai''"
    by code_simp
  have c: "framework_candidates crewai_sample_agent = Inr [(''crewai'', 15), (''langgraph'', 2)]"
    by code_simp
  show ?thesis
    using crewai_sample_dominates [OF d m k n t] c by simp
qed

section \<open>A record tagged python and fastapi\<close>

lemma language_candidates_cong:
  assumes "framework a = framework b" and "tags a = tags b" and "repository a = repository b"
    and "slug a = slug b" and "name a = name b" and "description a = description b"
    and "sdks a = sdks b"
  shows "language_candidates a = language_candidates b"
proof -
  have 1: "language_framework_rule a = language_framework_rule b"
    by (simp add: fun_eq_iff language_framework_rule_def assms)
  have 2: "language_tag_rule a = language_tag_rule b"
    by (simp add: fun_eq_iff language_tag_rule_def assms)
  have 3: "language_repo_rule a = language_repo_rule b"
    by (simp add: fun_eq_iff language_repo_rule_def assms)
  have 4: "language_name_rule a = language_name_rule b"
    by (simp add: fun_eq_iff language_name_rule_def assms)
  have 5: "language_desc_rule a = language_desc_rule b"
    by (simp add: fun_eq_iff language_desc_rule_def assms)
  have 6: "language_sample_rule a = language_sample_rule b"
    by (simp add: fun_eq_iff language_sample_rule_def assms)
  have 7: "language_sdk_rule a = language_sdk_rule b"
    by (simp add: fun_eq_iff language_sdk_rule_def assms)
  show ?thesis
    unfolding language_candidates_def 1 2 3 4 5 6 7 by (rule refl)
qed

text \<open>
  C8. The tags \<^verbatim>\<open>python\<close> and \<^verbatim>\<open>fastapi\<close>, in either order, and no other signal: one
  candidate, \<^verbatim>\<open>python\<close> with score 6, and it is returned.
\<close>

theorem python_fastapi_scenario:
  assumes "tags agent = Some [''python'', ''fastapi''] \<or>
           tags agent = Some [''fastapi'', ''python'']"
    and "framework agent = None \<or> framework agent = Some ''custom''"
    and "slug agent = None" and "name agent = None" and "description agent = None"
    and "repository agent = None" and "sdks agent = None"
  shows "language_candidates agent = Inr [(''python'', 6)] \<and>
         infer_language agent = Inr (Some ''python'')"
proof -
  let ?a = "\<lambda>ts fw. empty_agent\<lparr>tags := Some ts, framework := fw\<rparr>"
  have same: "language_candidates agent = language_candidates (?a ts fw)"
    if "tags agent = Some ts" "framework agent = fw" for ts fw
    using that assms(3-7)
    by (intro language_candidates_cong) (simp_all add: empty_agent_def)
  have ev: "language_candidates (?a [''python'', ''fastapi''] None) = Inr [(''python'', 6)]"
      "language_candidates (?a [''fastapi'', ''python''] None) = Inr [(''python'', 6)]"
      "language_candidates (?a [''python'', ''fastapi''] (Some ''custom'')) = Inr [(''python'', 6)]"
      "language_candidates (?a [''fastapi'', ''python''] (Some ''custom'')) = Inr [(''python'', 6)]"
    by code_simp+
  have c: "language_candidates agent = Inr [(''python'', 6)]"
    using assms(1,2) same ev by metis
  have "infer_language agent = Inr (Some ''python'')"
    by (simp add: infer_language_def c most_common_def py_index_def)
  with c show ?thesis by simp
qed

theorem python_fastapi_scenario_witness:
  "language python_fastapi_agent = Some ''unknown'' \<and>
   language_candidates python_fastapi_agent = Inr [(''python'', 6)] \<and>
   infer_language python_fastapi_agent = Inr (Some ''python'')"
  using python_fastapi_scenario [of python_fastapi_agent]
  by (simp add: python_fastapi_agent_def empty_agent_def)

section \<open>Totality\<close>

text \<open>
  C9. No inference function raises, whatever the record: every index access of the three
  functions is guarded. Absent tags, an absent description and an address that is not a
  GitHub address of five segments add nothing to the tally.
\<close>

theorem inference_never_raises:
  "(\<exists>r. infer_language agent = Inr r) \<and>
   (\<exists>r. infer_category agent = Inr r) \<and>
   (\<exists>r. infer_framework agent = Inr r) \<and>
   (tags agent = None \<longrightarrow>
      language_tag_rule agent c = c \<and> category_tag_rule agent c = c \<and>
      framework_tag_rule agent c = c) \<and>
   (description agent = None \<longrightarrow>
      language_desc_rule agent c = c \<and> language_sample_rule agent c = c \<and>
      category_desc_rule agent c = c \<and> framework_sample_rule agent c = Inr c) \<and>
   (\<not> (contains ''github.com'' (dict_get (repository agent) []) \<and>
        5 \<le> length (str_split CHR ''/'' (rstrip ''/'' (dict_get (repository agent) [])))) \<longrightarrow>
      language_repo_rule agent c = Inr c)"
  using infer_language_total infer_category_total infer_framework_total
    missing_tags_add_nothing missing_description_adds_nothing other_url_adds_nothing
  by blast

theorem inference_never_raises_witness:
  "tags short_url_agent = None \<and> description short_url_agent = None \<and>
   length (str_split CHR ''/'' (rstrip ''/'' (dict_get (repository short_url_agent) []))) = 4 \<and>
   (\<exists>r. infer_language short_url_agent = Inr r) \<and>
   language_tag_rule short_url_agent [] = [] \<and>
   language_desc_rule short_url_agent [] = [] \<and>
   framework_sample_rule short_url_agent [] = Inr [] \<and>
   language_repo_rule short_url_agent [] = Inr []"
proof -
  have t: "tags short_url_agent = None" and d: "description short_url_agent = None"
    by (simp_all add: short_url_agent_def empty_agent_def)
  have n: "length (str_split CHR ''/'' (rstrip ''/'' (dict_get (repository short_url_agent) []))) = 4"
    by code_simp
  show ?thesis
    using inference_never_raises [of short_url_agent "[]"] t d n by simp
qed

section \<open>Returned categories\<close>

text \<open>
  C10. A label returned by \<^verbatim>\<open>infer_category\<close> is one of twelve; \<^verbatim>\<open>multi-agent\<close>, a
  member of \<^verbatim>\<open>VALID_CATEGORIES\<close>, is never returned: the rule that holds the tag
  \<^verbatim>\<open>multi-agent\<close> gives \<^verbatim>\<open>orchestration\<close>.
\<close>

theorem category_labels:
  "(infer_category agent = Inr (Some l) \<longrightarrow>
      l \<in> {''orchestration'', ''enterprise'', ''code-generation'', ''search'',
           ''data-analytics'', ''conversational'', ''infrastructure'', ''utility'', ''finance'',
           ''security'', ''media-content'', ''travel''}) \<and>
   infer_category agent \<noteq> Inr (Some ''multi-agent'') \<and>
   ''multi-agent'' \<in> VALID_CATEGORIES \<and>
   (\<forall>(tag_set, label, min_matches) \<in> set TAG_CATEGORY_RULES.
      ''multi-agent'' \<in> set tag_set \<longrightarrow> label = ''orchestration'')"
proof (intro conjI impI)
  assume "infer_category agent = Inr (Some l)"
  then have "l \<in> set inferred_categories" by (rule infer_category_label)
  then show "l \<in> {''orchestration'', ''enterprise'', ''code-generation'', ''search'',
           ''data-analytics'', ''conversational'', ''infrastructure'', ''utility'', ''finance'',
           ''security'', ''media-content'', ''travel''}"
    by (simp add: inferred_categories_def)
next
  have "''multi-agent'' \<notin> set inferred_categories"
    by (simp add: inferred_categories_def)
  then show "infer_category agent \<noteq> Inr (Some ''multi-agent'')"
    using infer_category_label by blast
next
  show "''multi-agent'' \<in> VALID_CATEGORIES"
    by (simp add: VALID_CATEGORIES_def)
next
  have "list_all (\<lambda>(tag_set, label, min_matches).
          ''multi-agent'' \<in> set tag_set \<longrightarrow> label = ''orchestration'') TAG_CATEGORY_RULES"
    by code_simp
  then show "\<forall>(tag_set, label, min_matches) \<in> set TAG_CATEGORY_RULES.
      ''multi-agent'' \<in> set tag_set \<longrightarrow> label = ''orchestration''"
    by (simp add: list_all_iff)
qed

theorem category_labels_witness:
  "infer_category multi_agent_tagged = Inr (Some ''orchestration'') \<and>
   ''orchestration'' \<in> {''orchestration'', ''enterprise'', ''code-generation'', ''search'',
           ''data-analytics'', ''conversational'', ''infrastructure'', ''utility'', ''finance'',
           ''security'', ''media-content'', ''travel''} \<and>
   ([''multi-agent'', ''multi-agent-systems'', ''agent-orchestration'', ''orchestration'',
     ''agent-collaboration''], ''orchestration'', 1) \<in> set TAG_CATEGORY_RULES"
proof -
  have r: "infer_category multi_agent_tagged = Inr (Some ''orchestration'')"
    by code_simp
  have m: "([''multi-agent'', ''multi-agent-systems'', ''agent-orchestration'', ''orchestration'',
     ''agent-collaboration''], ''orchestration'', 1) \<in> set TAG_CATEGORY_RULES"
    by (simp add: TAG_CATEGORY_RULES_def)
  show ?thesis
    using category_labels [of multi_agent_tagged "''orchestration''"] r m by simp
qed

end
